theory Spec2Isabelle
  imports Complex_Main "HOL-Library.Monad_Syntax"
begin

section \<open>Values shared by all modules\<close>

text \<open>
  JavaScript strings are modelled as \<^typ>\<open>string\<close>: a list of code units, each below 256.
  A thrown \<^verbatim>\<open>Error\<close> is a value carrying its message; for an error raised by the browser and
  not by the framework the message stands for whatever the browser says.  The result of
  awaiting a promise is
  \<open>Resolved\<close> with a value, \<open>Rejected\<close> with the error, or \<open>Pending\<close> when the promise never
  settles.
\<close>

datatype error = JsError string

fun message :: "error \<Rightarrow> string" where
  "message (JsError m) = m"

datatype 'a promise = Resolved 'a | Rejected error | Pending

text \<open>Decimal rendering of a number inside a template literal.\<close>

fun dec :: "nat \<Rightarrow> string" where
  "dec n = (if n < 10 then [''0123456789'' ! n]
            else dec (n div 10) @ [''0123456789'' ! (n mod 10)])"

declare dec.simps [simp del]

definition show_bool :: "bool \<Rightarrow> string" where
  "show_bool b = (if b then ''true'' else ''false'')"

subsection \<open>Character classes and string primitives\<close>

text \<open>\<^verbatim>\<open>\s\<close>: tab, line feed, vertical tab, form feed, carriage return, space, no-break space.\<close>

definition is_space :: "char \<Rightarrow> bool" where
  "is_space c = (c \<in> set [CHR 0x09, CHR 0x0A, CHR 0x0B, CHR 0x0C, CHR 0x0D, CHR 0x20, CHR 0xA0])"

text \<open>\<^verbatim>\<open>[\w\d_.]\<close>: ASCII letters, digits, underscore and the dot.\<close>

definition is_key_char :: "char \<Rightarrow> bool" where
  "is_key_char c =
     (c \<in> set ''abcdefghijklmnopqrstuvwxyzABCDEFGHIJKLMNOPQRSTUVWXYZ0123456789_.'')"

text \<open>\<^verbatim>\<open>['"]\<close> and its complement \<^verbatim>\<open>[^'"]\<close>.\<close>

definition is_quote :: "char \<Rightarrow> bool" where
  "is_quote c = (c = CHR 0x27 \<or> c = CHR 0x22)"

definition strip_prefix :: "string \<Rightarrow> string \<Rightarrow> string option" where
  "strip_prefix p s = (if take (length p) s = p then Some (drop (length p) s) else None)"

definition strip_quote :: "string \<Rightarrow> string option" where
  "strip_quote s = (case s of [] \<Rightarrow> None | c # cs \<Rightarrow> if is_quote c then Some cs else None)"

text \<open>\<^verbatim>\<open>String.prototype.split\<close> with a one-character separator.\<close>

fun split_on :: "char \<Rightarrow> string \<Rightarrow> string list" where
  "split_on d [] = [[]]"
| "split_on d (c # cs) =
     (if c = d then [] # split_on d cs
      else (case split_on d cs of [] \<Rightarrow> [[c]] | p # ps \<Rightarrow> (c # p) # ps))"

text \<open>\<^verbatim>\<open>String.prototype.indexOf\<close>: position of the first occurrence.\<close>

fun index_of :: "string \<Rightarrow> string \<Rightarrow> nat option" where
  "index_of pat [] = (if pat = [] then Some 0 else None)"
| "index_of pat (c # cs) =
     (if take (length pat) (c # cs) = pat then Some 0
      else map_option Suc (index_of pat cs))"

text \<open>
  \<^verbatim>\<open>GetSubstitution\<close> for a string pattern (no capture groups): in the replacement text
  \<^verbatim>\<open>$$\<close> is a dollar sign, \<^verbatim>\<open>$&\<close> the matched text, \<^verbatim>\<open>$`\<close> the text before the match and
  \<^verbatim>\<open>$'\<close> the text after it; every other character stands for itself.
\<close>

fun getSubstitution :: "string \<Rightarrow> string \<Rightarrow> string \<Rightarrow> string \<Rightarrow> string" where
  "getSubstitution m b a [] = []"
| "getSubstitution m b a [c] = [c]"
| "getSubstitution m b a (c # d # r) =
     (if c = CHR ''$'' then
        (if d = CHR ''$'' then CHR ''$'' # getSubstitution m b a r
         else if d = CHR ''&'' then m @ getSubstitution m b a r
         else if d = CHR 0x60 then b @ getSubstitution m b a r
         else if d = CHR 0x27 then a @ getSubstitution m b a r
         else c # getSubstitution m b a (d # r))
      else c # getSubstitution m b a (d # r))"

text \<open>\<^verbatim>\<open>str.replace(pat, repl)\<close> with a string pattern: the first occurrence only.\<close>

definition js_replace :: "string \<Rightarrow> string \<Rightarrow> string \<Rightarrow> string" where
  "js_replace s pat repl =
     (case index_of pat s of
        None \<Rightarrow> s
      | Some p \<Rightarrow>
          (let preceding = take p s; following = drop (p + length pat) s
           in preceding @ getSubstitution pat preceding following repl @ following))"

text \<open>\<^verbatim>\<open>str.replaceAll(pat, repl)\<close> with a non-empty string pattern: every occurrence, left to right.\<close>

function js_replaceAll_from :: "string \<Rightarrow> string \<Rightarrow> string \<Rightarrow> string \<Rightarrow> string" where
  "js_replaceAll_from pat repl preceding [] = []"
| "js_replaceAll_from pat repl preceding (c # cs) =
     (if pat \<noteq> [] \<and> take (length pat) (c # cs) = pat then
        getSubstitution pat preceding (drop (length pat) (c # cs)) repl
          @ js_replaceAll_from pat repl (preceding @ pat) (drop (length pat) (c # cs))
      else c # js_replaceAll_from pat repl (preceding @ [c]) cs)"
  by pat_completeness auto
termination
  by (relation "measure (\<lambda>(pat, repl, preceding, rest). length rest)") auto

definition js_replaceAll :: "string \<Rightarrow> string \<Rightarrow> string \<Rightarrow> string" where
  "js_replaceAll s pat repl = js_replaceAll_from pat repl [] s"

section \<open>Logger\<close>

datatype level = LLog | LInfo | LWarn | LError | LDebug

text \<open>
  One console call: the method, the formatted label and the remaining arguments.  An object
  argument is represented by the rendering of its fields.
\<close>

type_synonym log_entry = "level \<times> string \<times> string list"

definition format :: "string \<Rightarrow> string \<Rightarrow> string" where
  "format prefix caller =
     ''[webciel-plugin:'' @ (if caller \<noteq> [] then prefix @ '':'' @ caller else prefix) @ '']''"

definition emit :: "level \<Rightarrow> string \<Rightarrow> string \<Rightarrow> string list \<Rightarrow> log_entry" where
  "emit lv prefix caller args = (lv, format prefix caller, args)"

section \<open>The framework's state and its host\<close>

text \<open>
  Callbacks and loaded scripts are code of the host project, not of the framework: a callback
  is identified by a value of type \<open>'cb\<close>, the model records each invocation in \<open>invoked\<close>,
  and the host says how a call ends.  What such code does to the registry or the document is
  outside the model.
\<close>

datatype cb_behaviour = Returns | ThrowsSync error | ReturnsRejected error | ReturnsPending

record 'cb RegistryEntry =
  fn :: 'cb
  async :: bool

datatype Locale = Leaf string | Node "(string \<times> Locale) list"

text \<open>
  A DOM element: its children (parsed markup set through \<^verbatim>\<open>innerHTML\<close>, or text nodes added by
  \<^verbatim>\<open>append\<close> and \<^verbatim>\<open>prepend\<close>) and its \<^verbatim>\<open>data-current-page\<close> attribute.
\<close>

datatype node = Markup string | TextNode string

record element =
  children :: "node list"
  data_current_page :: "string option"

record 'cb world =
  Registries :: "string \<rightharpoonup> 'cb RegistryEntry"
  registeredLocales :: "(string \<times> Locale) list"
  fallbackLocale :: string
  sessionStorage :: "string \<rightharpoonup> string"
  elements :: "string \<rightharpoonup> element"
  scripts :: "string list"
  console :: "log_entry list"
  fetched :: "string list"
  invoked :: "'cb list"
  icon_refreshes :: nat

record 'cb host =
  extension_id :: string
  uiLanguage :: "string option"
  resources :: "string \<rightharpoonup> string"
  script_loads :: "string \<Rightarrow> bool"
  behaviour :: "'cb \<Rightarrow> cb_behaviour"

definition say :: "level \<Rightarrow> string \<Rightarrow> string \<Rightarrow> string list \<Rightarrow> 'cb world \<Rightarrow> 'cb world" where
  "say lv prefix caller args w = w\<lparr>console := console w @ [emit lv prefix caller args]\<rparr>"

section \<open>Callback registry\<close>

text \<open>An argument checked with \<^verbatim>\<open>typeof name !== 'string'\<close>: a string, or anything else (with its rendering).\<close>

datatype name_arg = IsString string | NotString string

definition quoted :: "string \<Rightarrow> string" where
  "quoted s = [CHR 0x22] @ s @ [CHR 0x22]"

definition Register :: "name_arg \<Rightarrow> 'cb option \<Rightarrow> bool option \<Rightarrow> 'cb world \<Rightarrow> 'cb world" where
  "Register name fn_arg async_opt w =
     (case name of
        NotString r \<Rightarrow> say LWarn ''registry'' ''Register'' [''Invalid name: '' @ quoted r] w
      | IsString n \<Rightarrow>
          (case fn_arg of
             None \<Rightarrow> say LWarn ''registry'' ''Register'' [''Invalid onMount function for '' @ quoted n] w
           | Some f \<Rightarrow>
               (let is_async = (async_opt = Some True);
                    w1 = say LLog ''registry'' ''Register'' [n, show_bool is_async] w
                in w1\<lparr>Registries := (Registries w1)(n \<mapsto> \<lparr>fn = f, async = is_async\<rparr>)\<rparr>)))"

text \<open>\<^verbatim>\<open>entry.async ? await entry.fn() : entry.fn()\<close>\<close>

definition call :: "'cb host \<Rightarrow> 'cb RegistryEntry \<Rightarrow> unit promise" where
  "call h entry =
     (case behaviour h (fn entry) of
        Returns \<Rightarrow> Resolved ()
      | ThrowsSync e \<Rightarrow> Rejected e
      | ReturnsRejected e \<Rightarrow> (if async entry then Rejected e else Resolved ())
      | ReturnsPending \<Rightarrow> (if async entry then Pending else Resolved ()))"

definition Execute :: "'cb host \<Rightarrow> name_arg \<Rightarrow> 'cb world \<Rightarrow> 'cb world \<times> unit promise" where
  "Execute h name w =
     (case name of
        NotString r \<Rightarrow> (say LWarn ''registry'' ''Execute'' [''Invalid name: '' @ quoted r] w, Resolved ())
      | IsString n \<Rightarrow>
          (case Registries w n of
             None \<Rightarrow>
               (say LWarn ''registry'' ''Execute'' [''No function found for '' @ quoted n] w, Resolved ())
           | Some entry \<Rightarrow>
               (let w1 = say LLog ''registry'' ''Execute''
                           [''Executing '' @ quoted n @ '' (async: '' @ show_bool (async entry) @ '')''] w;
                    w2 = w1\<lparr>invoked := invoked w1 @ [fn entry]\<rparr>
                in case call h entry of
                     Resolved u \<Rightarrow> (say LLog ''registry'' ''Execute'' [''Done: '' @ quoted n] w2, Resolved ())
                   | Rejected e \<Rightarrow> (w2, Rejected e)
                   | Pending \<Rightarrow> (w2, Pending))))"

text \<open>A sequence of \<^verbatim>\<open>Register\<close> calls, oldest first.\<close>

type_synonym 'cb register_call = "name_arg \<times> 'cb option \<times> bool option"

fun Register_all :: "'cb register_call list \<Rightarrow> 'cb world \<Rightarrow> 'cb world" where
  "Register_all [] w = w"
| "Register_all ((name, fn_arg, async_opt) # calls) w =
     Register_all calls (Register name fn_arg async_opt w)"

text \<open>The entries stored by the valid registrations made under one key, oldest first.\<close>

fun registered_under :: "string \<Rightarrow> 'cb register_call list \<Rightarrow> 'cb RegistryEntry list" where
  "registered_under k [] = []"
| "registered_under k ((IsString n, Some f, a) # calls) =
     (if n = k then \<lparr>fn = f, async = (a = Some True)\<rparr> # registered_under k calls
      else registered_under k calls)"
| "registered_under k (c # calls) = registered_under k calls"

section \<open>Regular expressions of the framework\<close>

text \<open>
  Each pattern of the source is a fixed sequence of literals, greedy runs over a character class
  and one captured run, where the character after every run is outside the run's class: the
  backtracking matcher has a single way to match at a position, written out here.  A matcher
  takes the text at the position tried and returns the length of the match and capture 1.
\<close>

type_synonym matcher = "string \<Rightarrow> (nat \<times> string) option"

text \<open>\<^verbatim>\<open>/{{\s*locale\.([\w\d_.]+)\s*}}/\<close>\<close>

definition match_locale :: matcher where
  "match_locale s = do {
     s1 \<leftarrow> strip_prefix ''{{'' s;
     s2 \<leftarrow> strip_prefix ''locale.'' (dropWhile is_space s1);
     let key = takeWhile is_key_char s2;
     s3 \<leftarrow> (if key = [] then None
            else strip_prefix ''}}'' (dropWhile is_space (dropWhile is_key_char s2)));
     Some (length s - length s3, key)
   }"

text \<open>
  \<^verbatim>\<open>/<!--\s*include\(['"]([^'"]+)['"]\)\s*-->/\<close> and the same pattern with \<^verbatim>\<open>script\<close>;
  the keyword is the first argument.
\<close>

definition match_marker :: "string \<Rightarrow> matcher" where
  "match_marker kw s = do {
     s1 \<leftarrow> strip_prefix ''<!--'' s;
     s2 \<leftarrow> strip_prefix (kw @ ''('') (dropWhile is_space s1);
     s3 \<leftarrow> strip_quote s2;
     let name = takeWhile (\<lambda>c. \<not> is_quote c) s3;
     s4 \<leftarrow> (if name = [] then None else strip_quote (dropWhile (\<lambda>c. \<not> is_quote c) s3));
     s5 \<leftarrow> strip_prefix '')'' s4;
     s6 \<leftarrow> strip_prefix ''-->'' (dropWhile is_space s5);
     Some (length s - length s6, name)
   }"

text \<open>
  \<^verbatim>\<open>regex.exec(s)\<close> of a global pattern: the leftmost match starting at or after
  \<^verbatim>\<open>lastIndex\<close>, as (index, length, capture 1); the caller's next \<^verbatim>\<open>lastIndex\<close> is
  index + length.  No match: \<^verbatim>\<open>null\<close>.
\<close>

fun search :: "matcher \<Rightarrow> nat \<Rightarrow> string \<Rightarrow> (nat \<times> nat \<times> string) option" where
  "search m i [] = None"
| "search m i (c # cs) =
     (case m (c # cs) of Some (n, g) \<Rightarrow> Some (i, n, g) | None \<Rightarrow> search m (Suc i) cs)"

definition exec :: "matcher \<Rightarrow> string \<Rightarrow> nat \<Rightarrow> (nat \<times> nat \<times> string) option" where
  "exec m s lastIndex =
     (if lastIndex > length s then None else search m lastIndex (drop lastIndex s))"

lemma strip_prefix_length:
  assumes "strip_prefix p s = Some r"
  shows "length r + length p = length s"
proof -
  from assms have t: "take (length p) s = p" and r: "r = drop (length p) s"
    by (auto simp: strip_prefix_def split: if_splits)
  from t have "length (take (length p) s) = length p" by simp
  then have "length p \<le> length s" by simp
  with r show ?thesis by simp
qed

lemma strip_quote_length: "strip_quote s = Some r \<Longrightarrow> Suc (length r) = length s"
  by (auto simp: strip_quote_def split: list.splits if_splits)

lemma length_dropWhile_plus: "\<exists>k. length (dropWhile P xs) + k = length xs"
  using length_dropWhile_le [of P xs]
  by (intro exI [of _ "length xs - length (dropWhile P xs)"]) simp

lemma match_locale_length:
  assumes "match_locale s = Some (n, key)"
  shows "0 < n \<and> n \<le> length s"
proof -
  from assms obtain s1 s2 s3 where
    s1: "strip_prefix ''{{'' s = Some s1" and
    s2: "strip_prefix ''locale.'' (dropWhile is_space s1) = Some s2" and
    s3: "strip_prefix ''}}'' (dropWhile is_space (dropWhile is_key_char s2)) = Some s3" and
    n: "n = length s - length s3"
    by (auto simp: match_locale_def Let_def split: Option.bind_splits if_splits)
  obtain a where a: "length (dropWhile is_space s1) + a = length s1"
    using length_dropWhile_plus by blast
  obtain b where b: "length (dropWhile is_key_char s2) + b = length s2"
    using length_dropWhile_plus by blast
  obtain c where c: "length (dropWhile is_space (dropWhile is_key_char s2)) + c
      = length (dropWhile is_key_char s2)"
    using length_dropWhile_plus by blast
  show ?thesis
    using strip_prefix_length [OF s1] strip_prefix_length [OF s2] strip_prefix_length [OF s3]
      a b c n by simp
qed

lemma match_marker_length:
  assumes "match_marker kw s = Some (n, name)"
  shows "0 < n \<and> n \<le> length s"
proof -
  from assms obtain s1 s2 s3 s4 s5 s6 where
    s1: "strip_prefix ''<!--'' s = Some s1" and
    s2: "strip_prefix (kw @ ''('') (dropWhile is_space s1) = Some s2" and
    s3: "strip_quote s2 = Some s3" and
    s4: "strip_quote (dropWhile (\<lambda>c. \<not> is_quote c) s3) = Some s4" and
    s5: "strip_prefix '')'' s4 = Some s5" and
    s6: "strip_prefix ''-->'' (dropWhile is_space s5) = Some s6" and
    n: "n = length s - length s6"
    by (auto simp: match_marker_def Let_def split: Option.bind_splits if_splits)
  obtain a where a: "length (dropWhile is_space s1) + a = length s1"
    using length_dropWhile_plus by blast
  obtain b where b: "length (dropWhile (\<lambda>c. \<not> is_quote c) s3) + b = length s3"
    using length_dropWhile_plus by blast
  obtain c where c: "length (dropWhile is_space s5) + c = length s5"
    using length_dropWhile_plus by blast
  show ?thesis
    using strip_prefix_length [OF s1] strip_prefix_length [OF s2] strip_quote_length [OF s3]
      strip_quote_length [OF s4] strip_prefix_length [OF s5] strip_prefix_length [OF s6]
      a b c n by simp
qed

lemma search_bounds:
  "search m i t = Some (j, n, g) \<Longrightarrow> \<exists>k. j = i + k \<and> k < length t \<and> m (drop k t) = Some (n, g)"
proof (induction m i t rule: search.induct)
  case (1 m i)
  then show ?case by simp
next
  case (2 m i c cs)
  show ?case
  proof (cases "m (c # cs)")
    case None
    with 2 obtain k where "j = Suc i + k" "k < length cs" "m (drop k cs) = Some (n, g)"
      by auto
    then show ?thesis by (intro exI [of _ "Suc k"]) simp
  next
    case (Some r)
    with 2 show ?thesis by (intro exI [of _ 0]) (auto split: prod.splits)
  qed
qed

lemma exec_progress:
  assumes "exec m s lastIndex = Some (j, n, g)"
    and "\<And>t n g. m t = Some (n, g) \<Longrightarrow> 0 < n \<and> n \<le> length t"
  shows "lastIndex < j + n \<and> j + n \<le> length s"
proof -
  from assms(1) have le: "lastIndex \<le> length s"
    and "search m lastIndex (drop lastIndex s) = Some (j, n, g)"
    by (auto simp: exec_def split: if_splits)
  then obtain k where k: "j = lastIndex + k" "k < length (drop lastIndex s)"
      "m (drop k (drop lastIndex s)) = Some (n, g)"
    using search_bounds by blast
  from assms(2) [OF k(3)] have "0 < n" and "n \<le> length (drop k (drop lastIndex s))"
    by simp_all
  with k(1,2) le show ?thesis by simp
qed

lemma exec_marker_progress:
  assumes "exec (match_marker kw) s lastIndex = Some (j, n, g)"
  shows "lastIndex < j + n \<and> j + n \<le> length s"
  by (rule exec_progress [OF assms]) (erule match_marker_length)

section \<open>Localization\<close>

text \<open>A value of the locale table is truthy unless it is the empty string.\<close>

fun present :: "Locale option \<Rightarrow> bool" where
  "present None = False"
| "present (Some (Leaf s)) = (s \<noteq> [])"
| "present (Some (Node kvs)) = True"

definition registerLocales :: "(string \<times> Locale) list \<Rightarrow> string \<Rightarrow> 'cb world \<Rightarrow> 'cb world" where
  "registerLocales locales fallback w =
     say LLog ''locale'' ''registerLocales'' (map fst locales @ [''Fallback:'', fallback])
       (w\<lparr>registeredLocales := locales, fallbackLocale := fallback\<rparr>)"

definition getLocale :: "'cb host \<Rightarrow> 'cb world \<Rightarrow> string" where
  "getLocale h w =
     (let raw = (case uiLanguage h of
                   None \<Rightarrow> fallbackLocale w
                 | Some l \<Rightarrow> if l \<noteq> [] then l else fallbackLocale w);
          lang = (case split_on CHR ''-'' raw of [] \<Rightarrow> [] | p # ps \<Rightarrow> p)
      in if present (map_of (registeredLocales w) lang) then lang else fallbackLocale w)"

definition useLocale :: "'cb host \<Rightarrow> 'cb world \<Rightarrow> Locale" where
  "useLocale h w =
     (let found = map_of (registeredLocales w) (getLocale h w)
      in if present found then the found else Node [])"

text \<open>
  The loop of \<^verbatim>\<open>getNestedValue\<close> over the parts of the key, then its final test.  A locale
  tree is made of plain objects and strings, as its type says.  The test \<^verbatim>\<open>part in current\<close>
  also sees inherited properties, but those are functions or \<^verbatim>\<open>null\<close>, on which the walk ends
  with \<^verbatim>\<open>undefined\<close> just as it does for a missing part.
\<close>

fun walk :: "string list \<Rightarrow> Locale \<Rightarrow> string option" where
  "walk [] (Leaf s) = Some s"
| "walk [] (Node kvs) = None"
| "walk (part # parts) (Leaf s) = None"
| "walk (part # parts) (Node kvs) =
     (case map_of kvs part of None \<Rightarrow> None | Some nxt \<Rightarrow> walk parts nxt)"

definition getNestedValue :: "Locale \<Rightarrow> string \<Rightarrow> string option" where
  "getNestedValue locale key = walk (split_on CHR ''.'' key) locale"

text \<open>
  \<^verbatim>\<open>html.replace(/.../g, callback)\<close>: the text with every match replaced by the callback's
  result, and the keys for which the callback logged a warning, in order.
\<close>

function translate :: "Locale \<Rightarrow> string \<Rightarrow> string \<times> string list" where
  "translate intl [] = ([], [])"
| "translate intl (c # cs) =
     (case match_locale (c # cs) of
        None \<Rightarrow> (let (out, missing) = translate intl cs in (c # out, missing))
      | Some (n, key) \<Rightarrow>
          (let (out, missing) = translate intl (drop n (c # cs))
           in case getNestedValue intl key of
                Some v \<Rightarrow> (v @ out, missing)
              | None \<Rightarrow> (''locale.'' @ key @ out, key # missing)))"
  by pat_completeness auto
termination
proof (relation "measure (\<lambda>(intl, s). length s)", goal_cases)
  case 1
  show ?case by simp
next
  case (2 intl c cs)
  show ?case by simp
next
  case (3 intl c cs r n key)
  then show ?case using match_locale_length [of "c # cs" n key] by simp
qed

definition applyTranslations :: "'cb host \<Rightarrow> string \<Rightarrow> 'cb world \<Rightarrow> 'cb world \<times> string" where
  "applyTranslations h html w =
     (let intl = useLocale h w;
          (out, missing) = translate intl html
      in (foldl (\<lambda>w key. say LWarn ''locale'' ''registerLocales''
                    [''Missing translation: locale.'' @ key] w) w missing,
          out))"

section \<open>Fragment loader\<close>

text \<open>
  The host: \<^verbatim>\<open>chrome.runtime.getURL\<close> prefixes the extension's origin; \<open>resources\<close> maps
  the path of a packaged file to its text, and \<^verbatim>\<open>fetch\<close> of a path without a file rejects;
  \<open>script_loads\<close> says whether the \<^verbatim>\<open>load\<close> event of a script with that source fires.
  \<open>fetched\<close> records every \<^verbatim>\<open>fetch\<close> call and \<open>scripts\<close> the sources of
  \<^verbatim>\<open>document.scripts\<close>.
\<close>

definition getURL :: "'cb host \<Rightarrow> string \<Rightarrow> string" where
  "getURL h path = ''chrome-extension://'' @ extension_id h @ ''/'' @ path"

definition cachedViewKey :: "string \<Rightarrow> string" where
  "cachedViewKey path = ''[commanders_act_assistant:framework:load:'' @ path @ '']''"

definition isScriptAlreadyLoaded :: "string \<Rightarrow> 'cb world \<Rightarrow> bool" where
  "isScriptAlreadyLoaded src w = (src \<in> set (scripts w))"

text \<open>\<^verbatim>\<open>if (cachedItem) return cachedItem\<close>: a stored string counts when it is not empty.\<close>

definition fetchWithCache :: "'cb host \<Rightarrow> string \<Rightarrow> 'cb world \<Rightarrow> 'cb world \<times> string promise" where
  "fetchWithCache h path w =
     (let cacheKey = cachedViewKey path;
          cachedItem = sessionStorage w cacheKey
      in if cachedItem \<noteq> None \<and> cachedItem \<noteq> Some [] then (w, Resolved (the cachedItem))
         else
           (let url = getURL h path;
                w1 = w\<lparr>fetched := fetched w @ [url]\<rparr>
            in case resources h path of
                 None \<Rightarrow> (w1, Rejected (JsError ''Failed to fetch''))
               | Some text \<Rightarrow>
                   (w1\<lparr>sessionStorage := (sessionStorage w1)(cacheKey \<mapsto> text)\<rparr>, Resolved text)))"

text \<open>
  The \<^verbatim>\<open>while\<close> loop of \<^verbatim>\<open>LoadScripts\<close>: \<open>started\<close> collects the sources of the script
  elements appended by this call, one promise each.
\<close>

function LoadScripts_loop ::
  "'cb host \<Rightarrow> string \<Rightarrow> string \<Rightarrow> nat \<Rightarrow> string list \<Rightarrow> 'cb world \<Rightarrow> 'cb world \<times> string list" where
  "LoadScripts_loop h htmlContent basePath lastIndex started w =
     (case exec (match_marker ''script'') htmlContent lastIndex of
        None \<Rightarrow> (w, started)
      | Some (i, n, scriptName) \<Rightarrow>
          (let scriptSrc = getURL h (basePath @ ''/'' @ scriptName @ ''.js'')
           in if \<not> isScriptAlreadyLoaded scriptSrc w
              then LoadScripts_loop h htmlContent basePath (i + n) (started @ [scriptSrc])
                     (w\<lparr>scripts := scripts w @ [scriptSrc]\<rparr>)
              else LoadScripts_loop h htmlContent basePath (i + n) started w))"
  by pat_completeness auto
termination
proof (relation "measure (\<lambda>(h, html, basePath, lastIndex, started, w). length html - lastIndex)",
    goal_cases)
  case 1
  show ?case by simp
next
  case (2 h html basePath lastIndex started w r i x n scriptName)
  then have "exec (match_marker ''script'') html lastIndex = Some (i, n, scriptName)" by simp
  from exec_marker_progress [OF this] show ?case by simp arith
next
  case (3 h html basePath lastIndex started w r i x n scriptName)
  then have "exec (match_marker ''script'') html lastIndex = Some (i, n, scriptName)" by simp
  from exec_marker_progress [OF this] show ?case by simp arith
qed

declare LoadScripts_loop.simps [simp del]

text \<open>\<^verbatim>\<open>await Promise.all(scriptPromises)\<close>: settles once every started script has loaded.\<close>

definition LoadScripts :: "'cb host \<Rightarrow> string \<Rightarrow> string \<Rightarrow> 'cb world \<Rightarrow> 'cb world \<times> unit promise" where
  "LoadScripts h htmlContent basePath w =
     (let (w1, started) = LoadScripts_loop h htmlContent basePath 0 [] w
      in (w1, if list_all (script_loads h) started then Resolved () else Pending))"

text \<open>\<^verbatim>\<open>await\<close>: continue with the value, or pass the rejection or the pending state on.\<close>

definition and_then ::
  "'w \<times> 'a promise \<Rightarrow> ('a \<Rightarrow> 'w \<Rightarrow> 'w \<times> 'b promise) \<Rightarrow> 'w \<times> 'b promise" where
  "and_then r k =
     (case r of
        (w, Resolved a) \<Rightarrow> k a w
      | (w, Rejected e) \<Rightarrow> (w, Rejected e)
      | (w, Pending) \<Rightarrow> (w, Pending))"

text \<open>\<^verbatim>\<open>if (Registries?.[key]) await Execute(key)\<close>\<close>

definition Execute_if_registered :: "'cb host \<Rightarrow> string \<Rightarrow> 'cb world \<Rightarrow> 'cb world \<times> unit promise" where
  "Execute_if_registered h key w =
     (if Registries w key \<noteq> None then Execute h (IsString key) w else (w, Resolved ()))"

text \<open>\<^verbatim>\<open>for (const include of includes) ...\<close>\<close>

fun Execute_includes :: "'cb host \<Rightarrow> string list \<Rightarrow> 'cb world \<Rightarrow> 'cb world \<times> unit promise" where
  "Execute_includes h [] w = (w, Resolved ())"
| "Execute_includes h (registry # includes) w =
     and_then (Execute_if_registered h registry w) (\<lambda>u. Execute_includes h includes)"

definition RefreshIcons :: "'cb world \<Rightarrow> 'cb world" where
  "RefreshIcons w =
     say LLog ''icons'' ''RefreshIcons'' [''All icons refreshed!'']
       (w\<lparr>icon_refreshes := Suc (icon_refreshes w)\<rparr>)"

definition SetCurrentPage :: "string \<Rightarrow> 'cb world \<Rightarrow> 'cb world" where
  "SetCurrentPage name w =
     (case elements w ''_root'' of
        None \<Rightarrow> say LError ''load'' ''SetCurrentPage'' [''Element with ID '' @ quoted ''_root'' @ '' not found''] w
      | Some rootElement \<Rightarrow>
          w\<lparr>elements := (elements w)(''_root'' \<mapsto> rootElement\<lparr>data_current_page := Some name\<rparr>)\<rparr>)"

definition GetCurrentPage :: "'cb world \<Rightarrow> 'cb world \<times> string option" where
  "GetCurrentPage w =
     (case elements w ''_root'' of
        None \<Rightarrow> (say LError ''load'' ''GetCurrentPage'' [''Element with ID '' @ quoted ''_root'' @ '' not found''] w, None)
      | Some rootElement \<Rightarrow> (w, data_current_page rootElement))"

text \<open>
  The \<^verbatim>\<open>while\<close> loop of \<^verbatim>\<open>LoadIncludes\<close>.  The pattern object keeps \<^verbatim>\<open>lastIndex\<close> from
  one \<^verbatim>\<open>exec\<close> to the next while \<^verbatim>\<open>htmlContent\<close> is reassigned in between; the replaced
  text is \<^verbatim>\<open>match[0]\<close>, at its first occurrence.  The loop need not end, so the result is
  \<open>None\<close> when it runs forever.
\<close>

partial_function (option) LoadIncludes_loop ::
  "'cb host \<Rightarrow> nat \<Rightarrow> string \<Rightarrow> string list \<Rightarrow> 'cb world
     \<Rightarrow> ('cb world \<times> (string \<times> string list) promise) option" where
  "LoadIncludes_loop h lastIndex htmlContent includes w =
     (case exec (match_marker ''include'') htmlContent lastIndex of
        None \<Rightarrow> Some (w, Resolved (htmlContent, includes))
      | Some (i, n, includeName) \<Rightarrow>
          (let includeRegistry = ''includes/'' @ includeName
           in case fetchWithCache h (''includes/'' @ includeName @ ''/index.html'') w of
                (w1, Rejected e) \<Rightarrow> Some (w1, Rejected e)
              | (w1, Pending) \<Rightarrow> Some (w1, Pending)
              | (w1, Resolved fetchedContent) \<Rightarrow>
                  (let (w2, includeContent) = applyTranslations h fetchedContent w1
                   in case LoadScripts h includeContent includeRegistry w2 of
                        (w3, Rejected e) \<Rightarrow> Some (w3, Rejected e)
                      | (w3, Pending) \<Rightarrow> Some (w3, Pending)
                      | (w3, Resolved u) \<Rightarrow>
                          LoadIncludes_loop h (i + n)
                            (js_replace htmlContent (take n (drop i htmlContent)) includeContent)
                            (includes @ [includeRegistry]) w3)))"

declare LoadIncludes_loop.simps [code]

definition LoadIncludes ::
  "'cb host \<Rightarrow> string \<Rightarrow> 'cb world \<Rightarrow> ('cb world \<times> (string \<times> string list) promise) option" where
  "LoadIncludes h htmlContent w = LoadIncludes_loop h 0 htmlContent [] w"

text \<open>The statements of \<^verbatim>\<open>LoadPage\<close> after \<^verbatim>\<open>LoadIncludes\<close> has resolved.\<close>

definition LoadPage_splice ::
  "'cb host \<Rightarrow> string \<Rightarrow> string \<Rightarrow> string list \<Rightarrow> 'cb world \<Rightarrow> 'cb world \<times> unit promise" where
  "LoadPage_splice h name replacedHtml includes w =
     (case elements w ''_root'' of
        None \<Rightarrow> (w, Rejected (JsError (''Element with ID '' @ quoted ''_root'' @ '' not found'')))
      | Some rootElement \<Rightarrow>
          (let pageRegistry = ''pages/'' @ name
           in and_then (LoadScripts h replacedHtml pageRegistry w) (\<lambda>u w4.
              and_then (Execute_if_registered h pageRegistry
                          (w4\<lparr>elements := (elements w4)
                                (''_root'' \<mapsto> rootElement\<lparr>children := [Markup replacedHtml]\<rparr>)\<rparr>)) (\<lambda>u w5.
              and_then (Execute_includes h includes w5) (\<lambda>u w6.
                (SetCurrentPage name (RefreshIcons w6), Resolved ()))))))"

text \<open>The \<^verbatim>\<open>try\<close> block of \<^verbatim>\<open>LoadPage\<close>.\<close>

definition LoadPage_try :: "'cb host \<Rightarrow> string \<Rightarrow> 'cb world \<Rightarrow> ('cb world \<times> unit promise) option" where
  "LoadPage_try h name w =
     (case fetchWithCache h (''pages/'' @ name @ ''/index.html'') w of
        (w1, Rejected e) \<Rightarrow> Some (w1, Rejected e)
      | (w1, Pending) \<Rightarrow> Some (w1, Pending)
      | (w1, Resolved fetchedContent) \<Rightarrow>
          (let (w2, htmlContent) = applyTranslations h fetchedContent w1
           in case LoadIncludes h htmlContent w2 of
                None \<Rightarrow> None
              | Some (w3, Rejected e) \<Rightarrow> Some (w3, Rejected e)
              | Some (w3, Pending) \<Rightarrow> Some (w3, Pending)
              | Some (w3, Resolved (replacedHtml, includes)) \<Rightarrow>
                  Some (LoadPage_splice h name replacedHtml includes w3)))"

text \<open>A \<^verbatim>\<open>catch\<close> clause that logs the error and returns.\<close>

definition catch_and_log ::
  "string \<Rightarrow> string \<Rightarrow> 'cb world \<times> unit promise \<Rightarrow> 'cb world \<times> unit promise" where
  "catch_and_log caller msg r =
     (case r of
        (w, Rejected e) \<Rightarrow> (say LError ''load'' caller [msg, message e] w, Resolved ())
      | (w, Resolved u) \<Rightarrow> (w, Resolved ())
      | (w, Pending) \<Rightarrow> (w, Pending))"

definition LoadPage :: "'cb host \<Rightarrow> string \<Rightarrow> 'cb world \<Rightarrow> ('cb world \<times> unit promise) option" where
  "LoadPage h name w =
     map_option (catch_and_log ''LoadPage'' (''Error loading page: '' @ name)) (LoadPage_try h name w)"

datatype LoadMode = Append | Prepend | InnerHTML

record LoadTemplateOptions =
  element :: string
  mode :: LoadMode
  replacements :: "(string \<times> string) list"

text \<open>\<^verbatim>\<open>element.innerHTML = html\<close> or \<^verbatim>\<open>element[mode](html)\<close>.\<close>

fun insert_content :: "LoadMode \<Rightarrow> string \<Rightarrow> element \<Rightarrow> element" where
  "insert_content InnerHTML html el = el\<lparr>children := [Markup html]\<rparr>"
| "insert_content Append html el = el\<lparr>children := children el @ [TextNode html]\<rparr>"
| "insert_content Prepend html el = el\<lparr>children := TextNode html # children el\<rparr>"

text \<open>
  The \<^verbatim>\<open>try\<close> block of \<^verbatim>\<open>LoadTemplate\<close>; \<open>element\<close> names the target among \<open>elements\<close>,
  and a target that does not exist makes the insertion throw.
\<close>

definition LoadTemplate_try ::
  "'cb host \<Rightarrow> string \<Rightarrow> LoadTemplateOptions \<Rightarrow> 'cb world \<Rightarrow> 'cb world \<times> unit promise" where
  "LoadTemplate_try h templatePath options w =
     and_then (fetchWithCache h (''templates/'' @ templatePath @ ''/index.html'') w) (\<lambda>fetchedContent w1.
       (let templateRegistry = ''templates/'' @ templatePath
        in and_then (LoadScripts h fetchedContent templateRegistry w1) (\<lambda>u w2.
           (let replaced = foldl (\<lambda>html (key, v). js_replaceAll html (''{'' @ key @ ''}'') v)
                              fetchedContent (replacements options);
                (w3, htmlContent) = applyTranslations h replaced w2
            in case elements w3 (element options) of
                 None \<Rightarrow> (w3, Rejected (JsError ''Cannot set properties of undefined''))
               | Some el \<Rightarrow>
                   and_then (Execute_if_registered h templateRegistry
                               (w3\<lparr>elements := (elements w3)
                                     (element options \<mapsto> insert_content (mode options) htmlContent el)\<rparr>))
                     (\<lambda>u w4. (RefreshIcons w4, Resolved ()))))))"

definition LoadTemplate ::
  "'cb host \<Rightarrow> string \<Rightarrow> LoadTemplateOptions \<Rightarrow> 'cb world \<Rightarrow> 'cb world \<times> unit promise" where
  "LoadTemplate h templatePath options w =
     catch_and_log ''LoadTemplate'' (''Failed to load template: '' @ templatePath)
       (LoadTemplate_try h templatePath options w)"

section \<open>Request helper\<close>

text \<open>
  JSON values as JavaScript sees them; \<open>JUndefined\<close> is the value of a missing property.
  With \<^verbatim>\<open>if (v)\<close> a value counts unless it is \<^verbatim>\<open>undefined\<close>, \<^verbatim>\<open>null\<close>, \<^verbatim>\<open>false\<close>, zero or
  the empty string.
\<close>

datatype json =
  JUndefined | JNull | JBool bool | JNum rat | JStr string | JArr "json list"
  | JObj "(string \<times> json) list"

fun truthy :: "json \<Rightarrow> bool" where
  "truthy JUndefined = False"
| "truthy JNull = False"
| "truthy (JBool b) = b"
| "truthy (JNum n) = (n \<noteq> 0)"
| "truthy (JStr s) = (s \<noteq> [])"
| "truthy (JArr xs) = True"
| "truthy (JObj kvs) = True"

text \<open>
  An item of \<^verbatim>\<open>sessionStorage\<close> under a request key: the text written by \<^verbatim>\<open>request\<close>,
  which parses to \<^verbatim>\<open>{data, timestamp}\<close>, or a text that \<^verbatim>\<open>JSON.parse\<close> and the destructuring
  reject.
\<close>

datatype cached = Unparsable | Item json int

text \<open>
  What \<^verbatim>\<open>fetch\<close> does: it rejects, or resolves with a status and a body, where the body is
  \<open>None\<close> when \<^verbatim>\<open>response.json()\<close> rejects.
\<close>

datatype http_result = NetworkFailure error | HttpResponse nat "json option"

text \<open>
  The remote side: the result of the \<open>n\<close>-th network call for a method and URL, and the
  milliseconds it takes.
\<close>

record network =
  respond :: "nat \<Rightarrow> string \<Rightarrow> string \<Rightarrow> http_result"
  elapsed :: "nat \<Rightarrow> nat"

record api_world =
  storage :: "string \<rightharpoonup> cached"
  now :: int
  requests :: "(string \<times> string) list"
  api_console :: "log_entry list"

record Api =
  logger_prefix :: string
  baseUrl :: string
  headers :: "string \<rightharpoonup> string"

record RequestOptions =
  opt_method :: "string option"
  opt_body :: "json option"
  opt_headers :: "(string \<rightharpoonup> string) option"
  opt_useCache :: "bool option"

text \<open>\<^verbatim>\<open>RequestInit\<close>; the body is the value handed to \<^verbatim>\<open>JSON.stringify\<close>.\<close>

record RequestInit =
  init_method :: string
  init_headers :: "string \<rightharpoonup> string"
  init_body :: "json option"

text \<open>\<open>reload\<close> holds the arguments of the call that the closure re-issues.\<close>

record ApiResponse =
  resp_method :: string
  resp_url :: string
  resp_options :: RequestInit
  data :: json
  status :: nat
  reload :: "string \<times> RequestOptions"

definition api_say :: "level \<Rightarrow> Api \<Rightarrow> string \<Rightarrow> string list \<Rightarrow> api_world \<Rightarrow> api_world" where
  "api_say lv api caller args w =
     w\<lparr>api_console := api_console w @ [emit lv (logger_prefix api) caller args]\<rparr>"

definition new_Api :: "string \<Rightarrow> (string \<rightharpoonup> string) option \<Rightarrow> string option \<Rightarrow> Api" where
  "new_Api base hdrs name =
     \<lparr>logger_prefix = (case name of None \<Rightarrow> ''API'' | Some n \<Rightarrow> n), baseUrl = base,
      headers = (case hdrs of None \<Rightarrow> Map.empty | Some m \<Rightarrow> m)\<rparr>"

definition cacheDuration :: int where
  "cacheDuration = 60 * 60 * 1000"

definition getCacheData :: "Api \<Rightarrow> string \<Rightarrow> bool \<Rightarrow> api_world \<Rightarrow> api_world \<times> json option" where
  "getCacheData api cacheKey useCache w =
     (if \<not> useCache then (w, None)
      else case storage w cacheKey of
             None \<Rightarrow> (w, None)
           | Some Unparsable \<Rightarrow> (api_say LWarn api ''getCacheData'' [''Invalid cache format''] w, None)
           | Some (Item payload timestamp) \<Rightarrow>
               if now w - timestamp < cacheDuration
               then (api_say LLog api ''getCacheData'' [''Returning cached data''] w, Some payload)
               else (api_say LLog api ''getCacheData'' [''Cache expired''] w, None))"

text \<open>\<^verbatim>\<open>response.ok\<close>\<close>

definition ok :: "nat \<Rightarrow> bool" where
  "ok st = (200 \<le> st \<and> st \<le> 299)"

text \<open>\<^verbatim>\<open>json.data\<close>: a property read, which throws on \<^verbatim>\<open>null\<close>.\<close>

fun data_of :: "json \<Rightarrow> error + json" where
  "data_of JNull = Inl (JsError ''Cannot read properties of null'')"
| "data_of JUndefined = Inl (JsError ''Cannot read properties of undefined'')"
| "data_of (JObj kvs) = Inr (case map_of kvs ''data'' of None \<Rightarrow> JUndefined | Some v \<Rightarrow> v)"
| "data_of v = Inr JUndefined"

text \<open>The \<^verbatim>\<open>catch\<close> clause of \<^verbatim>\<open>request\<close>: log and rethrow.\<close>

definition rethrow :: "Api \<Rightarrow> string \<Rightarrow> string \<Rightarrow> error \<Rightarrow> api_world \<Rightarrow> api_world \<times> ApiResponse promise" where
  "rethrow api method url e w =
     (api_say LError api ''request'' [''Error ['' @ method @ '']'', url, message e] w, Rejected e)"

text \<open>\<^verbatim>\<open>if (cachedData)\<close> on the result of \<^verbatim>\<open>getCacheData\<close>, where \<open>None\<close> is \<^verbatim>\<open>null\<close>.\<close>

fun usable :: "json option \<Rightarrow> bool" where
  "usable None = False"
| "usable (Some v) = truthy v"

definition cacheKey_for :: "string \<Rightarrow> string" where
  "cacheKey_for url = ''[webciel-plugin:API:'' @ url @ '']''"

text \<open>The defaults of the destructured \<^verbatim>\<open>rawOptions\<close>.\<close>

definition method_of :: "RequestOptions \<Rightarrow> string" where
  "method_of rawOptions = (case opt_method rawOptions of None \<Rightarrow> ''GET'' | Some m \<Rightarrow> m)"

definition body_of :: "RequestOptions \<Rightarrow> json" where
  "body_of rawOptions = (case opt_body rawOptions of None \<Rightarrow> JNull | Some b \<Rightarrow> b)"

definition headers_of :: "RequestOptions \<Rightarrow> (string \<rightharpoonup> string)" where
  "headers_of rawOptions = (case opt_headers rawOptions of None \<Rightarrow> Map.empty | Some m \<Rightarrow> m)"

definition useCache_of :: "RequestOptions \<Rightarrow> bool" where
  "useCache_of rawOptions = (case opt_useCache rawOptions of None \<Rightarrow> True | Some b \<Rightarrow> b)"

definition request_init :: "Api \<Rightarrow> RequestOptions \<Rightarrow> RequestInit" where
  "request_init api rawOptions =
     \<lparr>init_method = method_of rawOptions,
      init_headers = headers api ++ headers_of rawOptions
         ++ (if truthy (body_of rawOptions) then [''Content-Type'' \<mapsto> ''application/json'']
             else Map.empty),
      init_body = (if truthy (body_of rawOptions) then Some (body_of rawOptions) else None)\<rparr>"

text \<open>The \<^verbatim>\<open>try\<close> block of \<^verbatim>\<open>request\<close> with its \<^verbatim>\<open>catch\<close>: the network call.\<close>

definition request_try ::
  "Api \<Rightarrow> network \<Rightarrow> string \<Rightarrow> RequestOptions \<Rightarrow> api_world \<Rightarrow> api_world \<times> ApiResponse promise" where
  "request_try api net endpoint rawOptions w =
     (let method = method_of rawOptions;
          url = baseUrl api @ endpoint;
          k = length (requests w);
          w3 = w\<lparr>requests := requests w @ [(method, url)], now := now w + int (elapsed net k)\<rparr>
      in case respond net k method url of
           NetworkFailure e \<Rightarrow> rethrow api method url e w3
         | HttpResponse st parsed \<Rightarrow>
             if \<not> ok st then rethrow api method url (JsError (''HTTP Error: '' @ dec st)) w3
             else
               (case parsed of
                  None \<Rightarrow> rethrow api method url (JsError ''Unexpected token'') w3
                | Some js \<Rightarrow>
                    (case data_of js of
                       Inl e \<Rightarrow> rethrow api method url e w3
                     | Inr payload \<Rightarrow>
                         (let w4 = (if useCache_of rawOptions
                                    then w3\<lparr>storage := (storage w3)
                                            (cacheKey_for url \<mapsto> Item payload (now w3))\<rparr>
                                    else w3)
                          in (w4, Resolved \<lparr>resp_method = method, resp_url = url,
                                 resp_options = request_init api rawOptions, data = payload,
                                 status = st,
                                 reload = (endpoint, rawOptions\<lparr>opt_useCache := Some False\<rparr>)\<rparr>)))))"

definition request ::
  "Api \<Rightarrow> network \<Rightarrow> string \<Rightarrow> RequestOptions \<Rightarrow> api_world \<Rightarrow> api_world \<times> ApiResponse promise" where
  "request api net endpoint rawOptions w =
     (let method = method_of rawOptions;
          url = baseUrl api @ endpoint;
          w1 = api_say LLog api ''request'' [method, url] w;
          (w2, cachedData) = getCacheData api (cacheKey_for url) (useCache_of rawOptions) w1
      in if usable cachedData
         then (w2, Resolved \<lparr>resp_method = method, resp_url = url,
                 resp_options = request_init api rawOptions, data = the cachedData, status = 200,
                 reload = (endpoint, rawOptions\<lparr>opt_useCache := Some False\<rparr>)\<rparr>)
         else request_try api net endpoint rawOptions w2)"

text \<open>Calling the \<^verbatim>\<open>reload\<close> closure of a response.\<close>

definition call_reload ::
  "Api \<Rightarrow> network \<Rightarrow> ApiResponse \<Rightarrow> api_world \<Rightarrow> api_world \<times> ApiResponse promise" where
  "call_reload api net resp w = request api net (fst (reload resp)) (snd (reload resp)) w"

definition Api_fetch ::
  "Api \<Rightarrow> network \<Rightarrow> string \<Rightarrow> string \<Rightarrow> RequestOptions \<Rightarrow> api_world
     \<Rightarrow> api_world \<times> ApiResponse promise" where
  "Api_fetch api net method endpoint options w =
     request api net endpoint (options\<lparr>opt_method := Some method\<rparr>) w"

definition no_options :: RequestOptions where
  "no_options = \<lparr>opt_method = None, opt_body = None, opt_headers = None, opt_useCache = None\<rparr>"

definition Api_get ::
  "Api \<Rightarrow> network \<Rightarrow> string \<Rightarrow> RequestOptions \<Rightarrow> api_world \<Rightarrow> api_world \<times> ApiResponse promise" where
  "Api_get api net endpoint options w = Api_fetch api net ''GET'' endpoint options w"

section \<open>Concrete states used in the examples\<close>

definition marker :: "string \<Rightarrow> string \<Rightarrow> string" where
  "marker kw name = ''<!-- '' @ kw @ ''('' @ [CHR 0x27] @ name @ [CHR 0x27] @ '') -->''"

definition root_element :: element where
  "root_element = \<lparr>children = [], data_current_page = None\<rparr>"

definition empty_world :: "nat world" where
  "empty_world =
     \<lparr>Registries = Map.empty, registeredLocales = [], fallbackLocale = ''en'',
      sessionStorage = Map.empty, elements = [''_root'' \<mapsto> root_element], scripts = [],
      console = [], fetched = [], invoked = [], icon_refreshes = 0\<rparr>"

definition plain_host :: "(string \<rightharpoonup> string) \<Rightarrow> nat host" where
  "plain_host files =
     \<lparr>extension_id = ''ext'', uiLanguage = Some ''en-US'', resources = files,
      script_loads = (\<lambda>src. True), behaviour = (\<lambda>cb. Returns)\<rparr>"

definition example_api :: Api where
  "example_api = new_Api ''https://example.com/api'' None None"

definition fresh_api_world :: api_world where
  "fresh_api_world = \<lparr>storage = Map.empty, now = 0, requests = [], api_console = []\<rparr>"

text \<open>A server whose \<open>n\<close>-th response has the given status and the body \<^verbatim>\<open>{"data": n}\<close>.\<close>

definition counting_server :: "nat \<Rightarrow> network" where
  "counting_server st =
     \<lparr>respond = (\<lambda>n method url. HttpResponse st (Some (JObj [(''data'', JNum (of_nat n))]))),
      elapsed = (\<lambda>n. 5)\<rparr>"

text \<open>The state after one \<^verbatim>\<open>get\<close> whose response carried the payload \<^verbatim>\<open>0\<close>.\<close>

definition after_first_get :: api_world where
  "after_first_get =
     fst (Api_get example_api (counting_server 200) ''/user/me'' no_options fresh_api_world)"

text \<open>A state without the \<^verbatim>\<open>_root\<close> element, and one with three registered callbacks.\<close>

definition rootless_world :: "nat world" where
  "rootless_world = empty_world\<lparr>elements := Map.empty\<rparr>"

definition registered_world :: "nat world" where
  "registered_world =
     empty_world\<lparr>Registries :=
        [''pages/home'' \<mapsto> \<lparr>fn = 0, async = False\<rparr>,
         ''includes/a'' \<mapsto> \<lparr>fn = 1, async = False\<rparr>,
         ''includes/b'' \<mapsto> \<lparr>fn = 2, async = False\<rparr>]\<rparr>"

text \<open>Hosts for the examples: packaged files, and a host on which no script ever loads.\<close>

definition two_includes :: "nat host" where
  "two_includes = plain_host
     [''pages/home/index.html'' \<mapsto> marker ''include'' ''a'' @ marker ''include'' ''b'',
      ''includes/a/index.html'' \<mapsto> ''A'',
      ''includes/b/index.html'' \<mapsto> ''B'']"

definition nested_include :: "nat host" where
  "nested_include = plain_host
     [''pages/home/index.html'' \<mapsto> marker ''include'' ''a'',
      ''includes/a/index.html'' \<mapsto> marker ''include'' ''b'' @ ''<p>a</p>'',
      ''includes/b/index.html'' \<mapsto> ''<p>b</p>'']"

definition scripted_page :: "nat host" where
  "scripted_page = plain_host
     [''pages/home/index.html'' \<mapsto> marker ''script'' ''index'' @ marker ''include'' ''a'',
      ''includes/a/index.html'' \<mapsto> ''<nav>'' @ marker ''script'' ''nav'' @ ''</nav>'',
      ''templates/card/index.html'' \<mapsto> marker ''script'' ''card'' @ ''<b>{title}</b>'']"

definition scripts_never_load :: "nat host" where
  "scripts_never_load = scripted_page\<lparr>script_loads := (\<lambda>src. False)\<rparr>"

definition card_options :: LoadTemplateOptions where
  "card_options = \<lparr>element = ''_root'', mode = Append, replacements = [(''title'', ''Hi'')]\<rparr>"

text \<open>
  A token \<^verbatim>\<open>{{ locale.<dotted-key> }}\<close> with the white space around the key made explicit, and
  a state whose active locale tree is \<^verbatim>\<open>{en: {a: {b: "Hi"}}}\<close>.
\<close>

definition token :: "string \<Rightarrow> string \<Rightarrow> string \<Rightarrow> string" where
  "token ws1 key ws2 = ''{{'' @ ws1 @ ''locale.'' @ key @ ws2 @ ''}}''"

definition hi_world :: "nat world" where
  "hi_world = registerLocales [(''en'', Node [(''a'', Node [(''b'', Leaf ''Hi'')])])] ''en'' empty_world"

text \<open>The console entry of the warning that \<^verbatim>\<open>applyTranslations\<close> logs for a key.\<close>

definition missing_warning :: "string \<Rightarrow> log_entry" where
  "missing_warning key =
     emit LWarn ''locale'' ''registerLocales'' [''Missing translation: locale.'' @ key]"

text \<open>Reading a decimal rendering back.\<close>

definition digit_value :: "char \<Rightarrow> nat" where
  "digit_value c = of_char c - 48"

definition undec :: "string \<Rightarrow> nat" where
  "undec s = foldl (\<lambda>n c. 10 * n + digit_value c) 0 s"

section \<open>Registry: the entry of the latest registration is the one executed\<close>

lemma Register_frame:
  "invoked (Register name f a w) = invoked w"
  by (simp add: Register_def say_def Let_def split: name_arg.splits option.splits)

lemma Register_all_invoked: "invoked (Register_all calls w) = invoked w"
  by (induction calls w rule: Register_all.induct) (simp_all add: Register_frame)

lemma Register_Registries:
  "Registries (Register name f a w) k =
     (case registered_under k [(name, f, a)] of [] \<Rightarrow> Registries w k | e # es \<Rightarrow> Some e)"
  by (cases name; cases f) (simp_all add: Register_def say_def Let_def)

lemma registered_under_Cons:
  "registered_under k (c # calls) = registered_under k [c] @ registered_under k calls"
proof -
  obtain name f a where c: "c = (name, f, a)" by (cases c) auto
  show ?thesis unfolding c by (cases name; cases f) simp_all
qed

lemma Register_all_Registries:
  "Registries (Register_all calls w) k =
     (if registered_under k calls = [] then Registries w k
      else Some (last (registered_under k calls)))"
proof (induction calls w rule: Register_all.induct)
  case (1 w)
  show ?case by simp
next
  case (2 name f a calls w)
  have single: "registered_under k [(name, f, a)] = []
      \<or> (\<exists>e. registered_under k [(name, f, a)] = [e])"
    by (cases name; cases f) simp_all
  show ?case
    using 2 single
    by (subst (1 2) registered_under_Cons) (auto simp: Register_Registries)
qed

lemma Execute_registered:
  "Registries w k = Some e \<Longrightarrow> invoked (fst (Execute h (IsString k) w)) = invoked w @ [fn e]"
  by (simp add: Execute_def say_def Let_def split: promise.splits)

lemma Execute_unregistered:
  "Registries w k = None \<Longrightarrow>
   Execute h (IsString k) w
     = (say LWarn ''registry'' ''Execute'' [''No function found for '' @ quoted k] w, Resolved ())"
  by (simp add: Execute_def)

text \<open>
  Claim C8.  After any sequence of \<^verbatim>\<open>Register\<close> calls that holds at least one valid
  registration (string key, callable) under the key \<open>k\<close>, the registry's entry for \<open>k\<close> is the
  one of the most recent such call, and \<^verbatim>\<open>Execute(k)\<close> invokes exactly that entry's callback:
  the invocation trace grows by this one callback.  On a key without an entry \<^verbatim>\<open>Execute\<close>
  changes nothing but the console, where it logs a warning, and resolves without throwing.
\<close>

theorem Execute_invokes_latest_registration:
  "(registered_under k calls \<noteq> [] \<longrightarrow>
      Registries (Register_all calls w) k = Some (last (registered_under k calls)) \<and>
      invoked (fst (Execute h (IsString k) (Register_all calls w)))
        = invoked w @ [fn (last (registered_under k calls))])
   \<and> (Registries w k = None \<longrightarrow>
      Execute h (IsString k) w
        = (say LWarn ''registry'' ''Execute'' [''No function found for '' @ quoted k] w,
           Resolved ()))"
proof (intro conjI impI)
  assume ne: "registered_under k calls \<noteq> []"
  then show reg: "Registries (Register_all calls w) k = Some (last (registered_under k calls))"
    by (simp add: Register_all_Registries)
  show "invoked (fst (Execute h (IsString k) (Register_all calls w)))
        = invoked w @ [fn (last (registered_under k calls))]"
    using Execute_registered [OF reg] by (simp add: Register_all_invoked)
next
  assume "Registries w k = None"
  then show "Execute h (IsString k) w
      = (say LWarn ''registry'' ''Execute'' [''No function found for '' @ quoted k] w,
         Resolved ())"
    by (rule Execute_unregistered)
qed

theorem Execute_invokes_latest_registration_witness:
  "registered_under ''pages/home''
       [(IsString ''pages/home'', Some (1::nat), None), (NotString ''7'', Some 2, None),
        (IsString ''pages/home'', Some 3, Some True)] \<noteq> []
   \<and> invoked (fst (Execute (plain_host Map.empty) (IsString ''pages/home'')
        (Register_all [(IsString ''pages/home'', Some 1, None), (NotString ''7'', Some 2, None),
           (IsString ''pages/home'', Some 3, Some True)] empty_world))) = [3]
   \<and> Registries empty_world ''pages/home'' = None
   \<and> snd (Execute (plain_host Map.empty) (IsString ''pages/home'') empty_world) = Resolved ()"
  using Execute_invokes_latest_registration [of "''pages/home''"
     "[(IsString ''pages/home'', Some (1::nat), None), (NotString ''7'', Some 2, None),
        (IsString ''pages/home'', Some 3, Some True)]" empty_world "plain_host Map.empty"]
  by (simp add: empty_world_def)

section \<open>Localization: tokens and their replacement\<close>

lemma strip_prefix_append: "strip_prefix p (p @ r) = Some r"
  by (simp add: strip_prefix_def)

lemma strip_prefix_SomeD: "strip_prefix p s = Some r \<Longrightarrow> s = p @ r"
  by (auto simp: strip_prefix_def split: if_splits) (metis append_take_drop_id)

lemma space_not_key: "is_space c \<Longrightarrow> \<not> is_key_char c"
  by (auto simp: is_space_def is_key_char_def)

lemma closing_not_key: "\<not> is_key_char CHR ''}''"
  by (simp add: is_key_char_def)

lemma space_not_brace: "is_space c \<Longrightarrow> c \<noteq> CHR ''{''"
  by (auto simp: is_space_def)

lemma key_not_brace: "is_key_char c \<Longrightarrow> c \<noteq> CHR ''{''"
  by (auto simp: is_key_char_def)

text \<open>The pattern matches at the start of a text exactly when the text starts with a token.\<close>

lemma match_locale_steps:
  assumes "strip_prefix ''{{'' s = Some s1"
    and "strip_prefix ''locale.'' (dropWhile is_space s1) = Some s2"
    and "takeWhile is_key_char s2 = key" and "key \<noteq> []"
    and "strip_prefix ''}}'' (dropWhile is_space (dropWhile is_key_char s2)) = Some rest"
  shows "match_locale s = Some (length s - length rest, key)"
  using assms by (simp add: match_locale_def)

lemma match_locale_token:
  assumes "\<forall>c\<in>set ws1. is_space c" and "\<forall>c\<in>set ws2. is_space c"
    and "key \<noteq> []" and "\<forall>c\<in>set key. is_key_char c"
  shows "match_locale (token ws1 key ws2 @ rest) = Some (length (token ws1 key ws2), key)"
proof -
  define s2 where "s2 = key @ ws2 @ ''}}'' @ rest"
  define s1 where "s1 = ws1 @ ''locale.'' @ s2"
  have not_space: "\<not> is_space CHR ''l''" "\<not> is_space CHR ''}''"
    by (simp_all add: is_space_def)
  have d1: "dropWhile is_space s1 = ''locale.'' @ s2"
    unfolding s1_def using assms(1) not_space by (simp add: dropWhile_append2)
  have nk: "takeWhile is_key_char (ws2 @ ''}}'' @ rest) = []"
    using assms(2) by (cases ws2) (simp_all add: space_not_key closing_not_key)
  have t: "takeWhile is_key_char s2 = key"
    unfolding s2_def using assms(4) nk by (simp add: takeWhile_append2)
  have nk': "dropWhile is_key_char (ws2 @ ''}}'' @ rest) = ws2 @ ''}}'' @ rest"
    using assms(2) by (cases ws2) (simp_all add: space_not_key closing_not_key)
  have d2: "dropWhile is_key_char s2 = ws2 @ ''}}'' @ rest"
    unfolding s2_def using assms(4) nk' by (simp add: dropWhile_append2)
  have d3: "dropWhile is_space (ws2 @ ''}}'' @ rest) = ''}}'' @ rest"
    using assms(2) not_space by (simp add: dropWhile_append2)
  have whole: "token ws1 key ws2 @ rest = ''{{'' @ s1"
    by (simp add: token_def s1_def s2_def)
  have p1: "strip_prefix ''{{'' (token ws1 key ws2 @ rest) = Some s1"
    unfolding whole by (rule strip_prefix_append)
  have p2: "strip_prefix ''locale.'' (dropWhile is_space s1) = Some s2"
    unfolding d1 by (rule strip_prefix_append)
  have p3: "strip_prefix ''}}'' (dropWhile is_space (dropWhile is_key_char s2)) = Some rest"
    unfolding d2 d3 by (rule strip_prefix_append)
  have "length (token ws1 key ws2 @ rest) - length rest = length (token ws1 key ws2)"
    by simp
  with match_locale_steps [OF p1 p2 t assms(3) p3] show ?thesis by simp
qed

lemma match_locale_SomeD:
  assumes "match_locale s = Some (n, key)"
  shows "\<exists>ws1 ws2 rest. s = token ws1 key ws2 @ rest \<and> n = length (token ws1 key ws2)
           \<and> (\<forall>c\<in>set ws1. is_space c) \<and> (\<forall>c\<in>set ws2. is_space c)
           \<and> key \<noteq> [] \<and> (\<forall>c\<in>set key. is_key_char c)"
proof -
  from assms obtain s1 s2 s3 where
    s1: "strip_prefix ''{{'' s = Some s1" and
    s2: "strip_prefix ''locale.'' (dropWhile is_space s1) = Some s2" and
    key: "key = takeWhile is_key_char s2" "key \<noteq> []" and
    s3: "strip_prefix ''}}'' (dropWhile is_space (dropWhile is_key_char s2)) = Some s3" and
    n: "n = length s - length s3"
    by (auto simp: match_locale_def Let_def split: Option.bind_splits if_splits)
  define ws1 where "ws1 = takeWhile is_space s1"
  define ws2 where "ws2 = takeWhile is_space (dropWhile is_key_char s2)"
  have e1: "s = ''{{'' @ s1" using strip_prefix_SomeD [OF s1] .
  have e2: "s1 = ws1 @ ''locale.'' @ s2"
    using strip_prefix_SomeD [OF s2] takeWhile_dropWhile_id [of is_space s1]
    by (simp add: ws1_def)
  have a: "dropWhile is_space (dropWhile is_key_char s2) = ''}}'' @ s3"
    using strip_prefix_SomeD [OF s3] .
  have b: "dropWhile is_key_char s2 = ws2 @ ''}}'' @ s3"
    unfolding ws2_def a [symmetric] by simp
  have "takeWhile is_key_char s2 @ dropWhile is_key_char s2 = key @ ws2 @ ''}}'' @ s3"
    by (simp only: key(1) [symmetric] b)
  then have e3: "s2 = key @ ws2 @ ''}}'' @ s3"
    by (simp only: takeWhile_dropWhile_id)
  have s: "s = token ws1 key ws2 @ s3"
  proof -
    have "s = ''{{'' @ ws1 @ ''locale.'' @ s2"
      by (subst e1, subst e2) (rule refl)
    also have "\<dots> = ''{{'' @ ws1 @ ''locale.'' @ key @ ws2 @ ''}}'' @ s3"
      by (subst e3) (rule refl)
    finally show ?thesis by (simp add: token_def)
  qed
  have "\<forall>c\<in>set ws1. is_space c" "\<forall>c\<in>set ws2. is_space c" "\<forall>c\<in>set key. is_key_char c"
    by (auto simp: ws1_def ws2_def key(1) dest: set_takeWhileD)
  moreover have "n = length (token ws1 key ws2)"
    using n by (subst (asm) s) simp
  ultimately show ?thesis using s key(2) by blast
qed

lemma match_locale_extend:
  "match_locale s = Some (n, key) \<Longrightarrow> match_locale (s @ r) = Some (n, key)"
  using match_locale_token by (auto dest!: match_locale_SomeD)

text \<open>
  A position before a token where the pattern fails keeps failing when the token follows:
  the token's two opening braces cannot complete a match begun earlier.
\<close>

lemma match_locale_None_extend:
  assumes none: "match_locale s = None" and ne: "s \<noteq> []"
  shows "match_locale (s @ ''{{'' @ r) = None"
proof (rule ccontr)
  assume "match_locale (s @ ''{{'' @ r) \<noteq> None"
  then obtain n key where "match_locale (s @ ''{{'' @ r) = Some (n, key)" by auto
  from match_locale_SomeD [OF this] obtain ws1 ws2 rest where
    eq: "s @ ''{{'' @ r = token ws1 key ws2 @ rest" and
    sp: "\<forall>c\<in>set ws1. is_space c" "\<forall>c\<in>set ws2. is_space c" and
    k: "key \<noteq> []" "\<forall>c\<in>set key. is_key_char c"
    by blast
  define body where "body = ws1 @ ''locale.'' @ key @ ws2 @ ''}}''"
  have tok: "token ws1 key ws2 = ''{{'' @ body" by (simp add: token_def body_def)
  have nb: "CHR ''{'' \<notin> set body"
    using sp k(2) by (auto simp: body_def dest: space_not_brace key_not_brace)
  have bne: "body \<noteq> []" by (simp add: body_def)
  have whole: "\<And>us. s = token ws1 key ws2 @ us \<Longrightarrow> False"
    using match_locale_token [OF sp k] none by simp
  from ne obtain c s' where s: "s = c # s'" by (cases s) auto
  show False
  proof (cases s')
    case Nil
    with eq s tok have "CHR ''{'' # r = body @ rest" by simp
    with bne have "hd body = CHR ''{''" by (cases body) auto
    with bne nb show False by (cases body) auto
  next
    case (Cons d s'')
    with eq s tok have c: "c = CHR ''{''" "d = CHR ''{''" and
      e: "s'' @ ''{{'' @ r = body @ rest" by simp_all
    from e obtain us where
      "(s'' = body @ us \<and> us @ ''{{'' @ r = rest) \<or> (s'' @ us = body \<and> ''{{'' @ r = us @ rest)"
      unfolding append_eq_append_conv2 by blast
    then show False
    proof
      assume "s'' = body @ us \<and> us @ ''{{'' @ r = rest"
      then have "s = token ws1 key ws2 @ us" using s Cons c tok by simp
      then show False by (rule whole)
    next
      assume a: "s'' @ us = body \<and> ''{{'' @ r = us @ rest"
      show False
      proof (cases us)
        case Nil
        with a have "s = token ws1 key ws2 @ []" using s Cons c tok by simp
        then show False by (rule whole)
      next
        case (Cons u us')
        with a have "u = CHR ''{''" by simp
        with a Cons have "CHR ''{'' \<in> set body" by auto
        with nb show False by simp
      qed
    qed
  qed
qed

text \<open>
  Replacement is compositional: wherever a token stands in a text, the output is the output
  for the text before it, the token's replacement, and the output for the text after it; the
  same holds for the keys reported as missing.
\<close>

lemma translate_token:
  assumes "\<forall>c\<in>set ws1. is_space c" and "\<forall>c\<in>set ws2. is_space c"
    and "key \<noteq> []" and "\<forall>c\<in>set key. is_key_char c"
  shows "translate intl (pre @ token ws1 key ws2 @ post) =
     (fst (translate intl pre)
        @ (case getNestedValue intl key of Some v \<Rightarrow> v | None \<Rightarrow> ''locale.'' @ key)
        @ fst (translate intl post),
      snd (translate intl pre)
        @ (case getNestedValue intl key of Some v \<Rightarrow> [] | None \<Rightarrow> [key])
        @ snd (translate intl post))"
proof (induction intl pre rule: translate.induct)
  case (1 intl)
  obtain c cs where t: "token ws1 key ws2 @ post = c # cs"
    by (cases "token ws1 key ws2 @ post") (auto simp: token_def)
  have m: "match_locale (c # cs) = Some (length (token ws1 key ws2), key)"
    using match_locale_token [OF assms, of post] t by simp
  have d: "drop (length (token ws1 key ws2)) (c # cs) = post"
    using t [symmetric] by simp
  show ?case
    unfolding append_Nil t
    by (simp only: translate.simps m d option.case prod.case Let_def split: option.splits prod.splits)
       (auto split: prod.splits)
next
  case (2 intl c cs)
  let ?tail = "token ws1 key ws2 @ post"
  have tail: "?tail = ''{{'' @ (ws1 @ ''locale.'' @ key @ ws2 @ ''}}'' @ post)"
    by (simp add: token_def)
  show ?case
  proof (cases "match_locale (c # cs)")
    case None
    have "match_locale ((c # cs) @ ?tail) = None"
      unfolding tail by (rule match_locale_None_extend [OF None]) simp
    then have m: "match_locale (c # (cs @ ?tail)) = None" by simp
    show ?thesis
      using "2.IH"(1) [OF None] None m
      by (simp add: Let_def split: prod.splits)
  next
    case (Some r)
    obtain n k where r: "r = (n, k)" by (cases r) auto
    have m0: "match_locale (c # cs) = Some (n, k)" using Some r by simp
    have "match_locale ((c # cs) @ ?tail) = Some (n, k)"
      by (rule match_locale_extend [OF m0])
    then have m: "match_locale (c # (cs @ ?tail)) = Some (n, k)" by simp
    have len: "n \<le> length (c # cs)" using match_locale_length [OF m0] by simp
    then have d: "drop n (c # (cs @ ?tail)) = drop n (c # cs) @ ?tail"
      by (metis append_Cons drop_append diff_is_0_eq drop0)
    have ih: "translate intl (drop n (c # cs) @ ?tail) =
       (fst (translate intl (drop n (c # cs)))
          @ (case getNestedValue intl key of Some v \<Rightarrow> v | None \<Rightarrow> ''locale.'' @ key)
          @ fst (translate intl post),
        snd (translate intl (drop n (c # cs)))
          @ (case getNestedValue intl key of Some v \<Rightarrow> [] | None \<Rightarrow> [key])
          @ snd (translate intl post))"
      using "2.IH"(2) [OF Some r [symmetric]] by simp
    show ?thesis
      unfolding append_Cons
      by (simp only: translate.simps m m0 d ih option.case prod.case Let_def)
         (auto split: option.splits prod.splits)
  qed
qed

lemma foldl_say_console:
  "foldl (\<lambda>w key. say lv p c (f key) w) w keys
     = w\<lparr>console := console w @ map (\<lambda>key. emit lv p c (f key)) keys\<rparr>"
  by (induction keys arbitrary: w) (simp_all add: say_def)

lemma applyTranslations_translate:
  "applyTranslations h html w =
     (w\<lparr>console := console w @ map missing_warning (snd (translate (useLocale h w) html))\<rparr>,
      fst (translate (useLocale h w) html))"
proof -
  have m: "missing_warning
      = (\<lambda>key. emit LWarn ''locale'' ''registerLocales'' [''Missing translation: locale.'' @ key])"
    by (rule ext) (simp add: missing_warning_def)
  show ?thesis
    unfolding m
    by (simp add: applyTranslations_def Let_def foldl_say_console split: prod.splits)
qed

lemmas locale_eval = applyTranslations_def useLocale_def getLocale_def getNestedValue_def
  registerLocales_def hi_world_def empty_world_def plain_host_def root_element_def
  match_locale_def strip_prefix_def is_space_def is_key_char_def say_def emit_def format_def
  Let_def token_def missing_warning_def

text \<open>
  Claim C7.  Wherever a token \<^verbatim>\<open>{{ locale.<dotted-key> }}\<close> stands in the text (any white space
  around the key, any text before and after), \<^verbatim>\<open>applyTranslations\<close> replaces it by the string
  the key resolves to in the active locale tree, or, when the key does not resolve to a string,
  by the literal \<^verbatim>\<open>locale.<dotted-key>\<close> and logs one warning for it; the text before and the
  text after the token are translated on their own, and the warnings come in the order of the
  tokens.  With the tree \<^verbatim>\<open>{en: {a: {b: "Hi"}}}\<close> active, \<^verbatim>\<open><h1>{{ locale.a.b }}</h1>\<close>
  yields \<^verbatim>\<open><h1>Hi</h1>\<close> without a warning, and \<^verbatim>\<open><h1>{{ locale.a.c }}</h1>\<close> yields
  \<^verbatim>\<open><h1>locale.a.c</h1>\<close> with a warning.
\<close>

theorem applyTranslations_replaces_tokens:
  assumes "\<forall>c\<in>set ws1. is_space c" and "\<forall>c\<in>set ws2. is_space c"
    and "key \<noteq> []" and "\<forall>c\<in>set key. is_key_char c"
  shows "applyTranslations h (pre @ token ws1 key ws2 @ post) w =
      (w\<lparr>console := console w
           @ map missing_warning (snd (translate (useLocale h w) pre))
           @ (case getNestedValue (useLocale h w) key of
                Some v \<Rightarrow> [] | None \<Rightarrow> [missing_warning key])
           @ map missing_warning (snd (translate (useLocale h w) post))\<rparr>,
       fst (translate (useLocale h w) pre)
           @ (case getNestedValue (useLocale h w) key of
                Some v \<Rightarrow> v | None \<Rightarrow> ''locale.'' @ key)
           @ fst (translate (useLocale h w) post))
    \<and> applyTranslations (plain_host Map.empty) ''<h1>{{ locale.a.b }}</h1>'' hi_world
        = (hi_world, ''<h1>Hi</h1>'')
    \<and> applyTranslations (plain_host Map.empty) ''<h1>{{ locale.a.c }}</h1>'' hi_world
        = (say LWarn ''locale'' ''registerLocales'' [''Missing translation: locale.a.c'']
             hi_world,
           ''<h1>locale.a.c</h1>'')"
proof (intro conjI)
  show "applyTranslations h (pre @ token ws1 key ws2 @ post) w =
      (w\<lparr>console := console w
           @ map missing_warning (snd (translate (useLocale h w) pre))
           @ (case getNestedValue (useLocale h w) key of
                Some v \<Rightarrow> [] | None \<Rightarrow> [missing_warning key])
           @ map missing_warning (snd (translate (useLocale h w) post))\<rparr>,
       fst (translate (useLocale h w) pre)
           @ (case getNestedValue (useLocale h w) key of
                Some v \<Rightarrow> v | None \<Rightarrow> ''locale.'' @ key)
           @ fst (translate (useLocale h w) post))"
    unfolding applyTranslations_translate translate_token [OF assms]
    by (simp split: option.splits)
  show "applyTranslations (plain_host Map.empty) ''<h1>{{ locale.a.b }}</h1>'' hi_world
        = (hi_world, ''<h1>Hi</h1>'')"
    by (simp add: locale_eval)
  show "applyTranslations (plain_host Map.empty) ''<h1>{{ locale.a.c }}</h1>'' hi_world
        = (say LWarn ''locale'' ''registerLocales'' [''Missing translation: locale.a.c'']
             hi_world,
           ''<h1>locale.a.c</h1>'')"
    by (simp add: locale_eval)
qed

theorem applyTranslations_replaces_tokens_witness:
  "is_space CHR '' '' \<and> is_key_char CHR ''a'' \<and> is_key_char CHR ''.'' \<and> is_key_char CHR ''c''
   \<and> applyTranslations (plain_host Map.empty)
        (''<p>{{locale.a.b}}</p><h1>'' @ token '' '' ''a.c'' '' '' @ ''</h1>'') hi_world
      = (hi_world\<lparr>console := console hi_world @ [missing_warning ''a.c'']\<rparr>,
         ''<p>Hi</p><h1>locale.a.c</h1>'')"
proof -
  have sp: "\<forall>c\<in>set '' ''. is_space c" by (simp add: is_space_def)
  have ne: "''a.c'' \<noteq> []" by simp
  have kc: "\<forall>c\<in>set ''a.c''. is_key_char c" by (simp add: is_key_char_def)
  have tree: "useLocale (plain_host Map.empty) hi_world = Node [(''a'', Node [(''b'', Leaf ''Hi'')])]"
    by (simp add: locale_eval)
  have pre: "translate (Node [(''a'', Node [(''b'', Leaf ''Hi'')])]) ''<p>{{locale.a.b}}</p><h1>''
      = (''<p>Hi</p><h1>'', [])"
    by (simp add: locale_eval)
  have post: "translate (Node [(''a'', Node [(''b'', Leaf ''Hi'')])]) ''</h1>'' = (''</h1>'', [])"
    by (simp add: locale_eval)
  have miss: "getNestedValue (Node [(''a'', Node [(''b'', Leaf ''Hi'')])]) ''a.c'' = None"
    by (simp add: getNestedValue_def)
  from applyTranslations_replaces_tokens [OF sp sp ne kc, of "plain_host Map.empty"
      "''<p>{{locale.a.b}}</p><h1>''" "''</h1>''" hi_world]
  have "applyTranslations (plain_host Map.empty)
        (''<p>{{locale.a.b}}</p><h1>'' @ token '' '' ''a.c'' '' '' @ ''</h1>'') hi_world
      = (hi_world\<lparr>console := console hi_world @ [missing_warning ''a.c'']\<rparr>,
         ''<p>Hi</p><h1>locale.a.c</h1>'')"
    unfolding tree pre post miss by simp
  with sp kc show ?thesis by simp
qed

section \<open>Fragment loader\<close>

lemmas load_eval = LoadPage_def LoadPage_try_def LoadPage_splice_def LoadIncludes_def
  LoadTemplate_def LoadTemplate_try_def js_replaceAll_def
  LoadScripts_def LoadScripts_loop.simps fetchWithCache_def applyTranslations_def
  useLocale_def getLocale_def catch_and_log_def and_then_def Execute_if_registered_def
  Execute_def call_def RefreshIcons_def SetCurrentPage_def say_def emit_def format_def
  cachedViewKey_def getURL_def isScriptAlreadyLoaded_def exec_def match_marker_def
  match_locale_def strip_prefix_def strip_quote_def is_space_def is_quote_def is_key_char_def
  js_replace_def Let_def marker_def quoted_def show_bool_def
  empty_world_def plain_host_def root_element_def rootless_world_def registered_world_def
  two_includes_def nested_include_def scripted_page_def scripts_never_load_def card_options_def

subsection \<open>The text cache\<close>

text \<open>
  What holds of \<^verbatim>\<open>fetchWithCache\<close>: for a path that is not cached and whose file has a
  non-empty text, the first call fetches once, stores the text under the path's key and
  returns it, and a second call returns the stored text and changes nothing.
\<close>

lemma fetchWithCache_twice:
  assumes "sessionStorage w (cachedViewKey path) = None"
    and "resources h path = Some text" and "text \<noteq> []"
  shows "\<exists>w1. fetchWithCache h path w = (w1, Resolved text)
           \<and> fetched w1 = fetched w @ [getURL h path]
           \<and> sessionStorage w1 (cachedViewKey path) = Some text
           \<and> fetchWithCache h path w1 = (w1, Resolved text)"
  using assms by (simp add: fetchWithCache_def Let_def)

text \<open>
  Claim C9, evaluated where the code departs from it.  For a path whose file is empty, the
  first call stores the empty text, and the second call fetches again:
  \<^verbatim>\<open>if (cachedItem)\<close> takes the stored empty string for a miss.  Two calls, two fetches.
\<close>

theorem fetchWithCache_refetches_empty_text:
  "(\<exists>w1 w2.
      fetchWithCache (plain_host [''pages/blank/index.html'' \<mapsto> '''']) ''pages/blank/index.html''
          empty_world = (w1, Resolved '''')
      \<and> sessionStorage w1 (cachedViewKey ''pages/blank/index.html'') = Some ''''
      \<and> fetchWithCache (plain_host [''pages/blank/index.html'' \<mapsto> '''']) ''pages/blank/index.html''
          w1 = (w2, Resolved '''')
      \<and> fetched w2 = [''chrome-extension://ext/pages/blank/index.html'',
                       ''chrome-extension://ext/pages/blank/index.html''])"
  by (simp add: load_eval)

subsection \<open>Order of the callbacks\<close>

lemma Execute_frame:
  "Registries (fst (Execute h n w)) = Registries w"
  by (simp add: Execute_def say_def Let_def split: name_arg.splits option.splits promise.splits)

lemma Execute_if_registered_invoked:
  "Execute_if_registered h key w = (w', Resolved u) \<Longrightarrow>
   Registries w' = Registries w
   \<and> invoked w' = invoked w @ map fn (List.map_filter (Registries w) [key])"
  by (auto simp: Execute_if_registered_def Execute_def say_def Let_def List.map_filter_simps
      split: if_splits option.splits promise.splits)

lemma Execute_includes_invoked:
  "Execute_includes h incs w = (w', Resolved u) \<Longrightarrow>
   Registries w' = Registries w
   \<and> invoked w' = invoked w @ map fn (List.map_filter (Registries w) incs)"
proof (induction incs arbitrary: w)
  case Nil
  then show ?case by (simp add: List.map_filter_simps)
next
  case (Cons key incs)
  from Cons.prems obtain w1 where
    first: "Execute_if_registered h key w = (w1, Resolved ())" and
    rest: "Execute_includes h incs w1 = (w', Resolved u)"
    by (cases "Execute_if_registered h key w")
       (auto simp: and_then_def split: promise.splits)
  from Execute_if_registered_invoked [OF first] Cons.IH [OF rest]
  show ?case by (auto simp: List.map_filter_simps split: option.splits)
qed

lemma LoadScripts_loop_frame:
  "Registries (fst (LoadScripts_loop h html base i started w)) = Registries w
   \<and> invoked (fst (LoadScripts_loop h html base i started w)) = invoked w
   \<and> elements (fst (LoadScripts_loop h html base i started w)) = elements w
   \<and> console (fst (LoadScripts_loop h html base i started w)) = console w"
proof (induction h html base i started w rule: LoadScripts_loop.induct)
  case (1 h html base i started w)
  show ?case
    by (subst (1 2 3 4) LoadScripts_loop.simps)
       (use 1 in \<open>auto simp: Let_def split: option.splits\<close>)
qed

lemma LoadScripts_frame:
  "Registries (fst (LoadScripts h html base w)) = Registries w"
  "invoked (fst (LoadScripts h html base w)) = invoked w"
  "elements (fst (LoadScripts h html base w)) = elements w"
  "console (fst (LoadScripts h html base w)) = console w"
  using LoadScripts_loop_frame [of h html base 0 "[]" w]
  by (auto simp: LoadScripts_def split: prod.splits)

text \<open>
  What holds of the dispatch in \<^verbatim>\<open>LoadPage\<close>: when the statements after
  \<^verbatim>\<open>LoadIncludes\<close> run to the end, the callbacks invoked are that of the page's key, if one is
  registered, followed by those of the resolved inclusions that have one, in the order in which
  \<^verbatim>\<open>LoadIncludes\<close> listed them.
\<close>

lemma LoadPage_splice_invoked:
  assumes "LoadPage_splice h name replacedHtml incs w = (w', Resolved u)"
  shows "invoked w' = invoked w
           @ map fn (List.map_filter (Registries w) ((''pages/'' @ name) # incs))"
proof -
  from assms obtain rootElement where root: "elements w ''_root'' = Some rootElement"
    by (auto simp: LoadPage_splice_def split: option.splits)
  define w4 where "w4 = fst (LoadScripts h replacedHtml (''pages/'' @ name) w)"
  define w4' where "w4' = w4\<lparr>elements := (elements w4)
      (''_root'' \<mapsto> rootElement\<lparr>children := [Markup replacedHtml]\<rparr>)\<rparr>"
  have fr4: "Registries w4' = Registries w" "invoked w4' = invoked w"
    by (simp_all add: w4'_def w4_def LoadScripts_frame)
  from assms root obtain w5 w6 where
    page: "Execute_if_registered h (''pages/'' @ name) w4' = (w5, Resolved ())" and
    incs: "Execute_includes h incs w5 = (w6, Resolved ())" and
    fin: "w' = SetCurrentPage name (RefreshIcons w6)"
    by (cases "LoadScripts h replacedHtml (''pages/'' @ name) w";
        cases "Execute_if_registered h (''pages/'' @ name) w4'";
        cases "Execute_includes h incs (fst (Execute_if_registered h (''pages/'' @ name) w4'))")
       (auto simp: LoadPage_splice_def and_then_def Let_def w4'_def w4_def split: promise.splits)
  have "invoked w' = invoked w6"
    by (simp add: fin SetCurrentPage_def RefreshIcons_def say_def split: option.splits)
  with Execute_if_registered_invoked [OF page] Execute_includes_invoked [OF incs] fr4
  show ?thesis by (auto simp: List.map_filter_simps split: option.splits)
qed

text \<open>
  Claim C1, evaluated where the code departs from it.  The page holds two include markers,
  one right after the other, and each include's text is one character; callbacks are registered
  for the page and for both includes.  After the first marker is replaced, the pattern's
  \<^verbatim>\<open>lastIndex\<close> (21, the end of the first marker in the old text) lies beyond the start of
  the second marker in the new text, so the second marker is never matched: its file is not
  fetched, it stays in the markup, and its callback is not dispatched.
\<close>

theorem LoadPage_skips_second_include:
  "(\<exists>w'. LoadPage two_includes ''home'' registered_world = Some (w', Resolved ())
      \<and> invoked w' = [0, 1]
      \<and> elements w' ''_root''
          = Some \<lparr>children = [Markup (''A'' @ marker ''include'' ''b'')],
                  data_current_page = Some ''home''\<rparr>
      \<and> fetched w' = [''chrome-extension://ext/pages/home/index.html'',
                       ''chrome-extension://ext/includes/a/index.html''])"
  by (simp add: load_eval LoadIncludes_loop.simps)

text \<open>
  Claim C2, evaluated where the code departs from it.  The include \<^verbatim>\<open>a\<close> starts with a
  marker for the include \<^verbatim>\<open>b\<close>.  After the page's marker is replaced by the text of \<^verbatim>\<open>a\<close>,
  the search resumes at \<^verbatim>\<open>lastIndex\<close> 21, past the start of the nested marker: the nested
  marker is not expanded, \<^verbatim>\<open>b\<close> is never fetched, and the marker remains in the final markup.
\<close>

theorem LoadIncludes_leaves_nested_marker:
  "(\<exists>w'. LoadIncludes nested_include (marker ''include'' ''a'') empty_world
            = Some (w', Resolved (marker ''include'' ''b'' @ ''<p>a</p>'', [''includes/a'']))
      \<and> fetched w' = [''chrome-extension://ext/includes/a/index.html''])
   \<and> (\<exists>w'. LoadPage nested_include ''home'' empty_world = Some (w', Resolved ())
      \<and> elements w' ''_root''
          = Some \<lparr>children = [Markup (marker ''include'' ''b'' @ ''<p>a</p>'')],
                  data_current_page = Some ''home''\<rparr>)"
  by (simp add: load_eval LoadIncludes_loop.simps)

subsection \<open>The missing root element\<close>

text \<open>Nothing before the root lookup touches the DOM elements.\<close>

lemma fetchWithCache_frame:
  "elements (fst (fetchWithCache h p w)) = elements w"
  "console (fst (fetchWithCache h p w)) = console w"
  by (simp_all add: fetchWithCache_def Let_def split: option.splits)

lemma foldl_say_elements:
  "elements (foldl (\<lambda>w key. say lv p c (f key) w) w keys) = elements w"
  by (induction keys arbitrary: w) (simp_all add: say_def)

lemma applyTranslations_frame:
  "elements (fst (applyTranslations h html w)) = elements w"
  by (simp add: applyTranslations_def Let_def foldl_say_elements split: prod.splits)

lemma LoadIncludes_loop_elements:
  assumes "LoadIncludes_loop h i html incs w = Some y"
  shows "elements (fst y) = elements w"
proof (rule LoadIncludes_loop.raw_induct
    [where P = "\<lambda>h i html incs w y. elements (fst y) = elements w", OF _ assms], goal_cases)
  case (1 loop h i html incs w y)
  show ?case
  proof (cases "exec (match_marker ''include'') html i")
    case None
    with 1(2) show ?thesis by auto
  next
    case (Some m)
    obtain j n nm where m: "m = (j, n, nm)" by (cases m) auto
    obtain w1 r1 where f: "fetchWithCache h (''includes/'' @ nm @ ''/index.html'') w = (w1, r1)"
      by (cases "fetchWithCache h (''includes/'' @ nm @ ''/index.html'') w") auto
    have e1: "elements w1 = elements w"
      using fetchWithCache_frame(1) [of h "''includes/'' @ nm @ ''/index.html''" w] f by simp
    show ?thesis
    proof (cases r1)
      case (Resolved content)
      obtain w2 c2 where a: "applyTranslations h content w1 = (w2, c2)"
        by (cases "applyTranslations h content w1") auto
      have e2: "elements w2 = elements w1"
        using applyTranslations_frame [of h content w1] a by simp
      obtain w3 r3 where l: "LoadScripts h c2 (''includes/'' @ nm) w2 = (w3, r3)"
        by (cases "LoadScripts h c2 (''includes/'' @ nm) w2") auto
      have e3: "elements w3 = elements w2"
        using LoadScripts_frame(3) [of h c2 "''includes/'' @ nm" w2] l by simp
      show ?thesis
      proof (cases r3)
        case (Resolved u)
        with 1(2) Some m f \<open>r1 = Resolved content\<close> a l
        have "loop h (j + n) (js_replace html (take n (drop j html)) c2)
                (incs @ [''includes/'' @ nm]) w3 = Some y"
          by (simp add: Let_def)
        then have "elements (fst y) = elements w3" by (rule 1(1))
        with e1 e2 e3 show ?thesis by simp
      next
        case (Rejected e)
        with 1(2) Some m f \<open>r1 = Resolved content\<close> a l e1 e2 e3 show ?thesis
          by (auto simp: Let_def)
      next
        case Pending
        with 1(2) Some m f \<open>r1 = Resolved content\<close> a l e1 e2 e3 show ?thesis
          by (auto simp: Let_def)
      qed
    next
      case (Rejected e)
      with 1(2) Some m f e1 show ?thesis by (auto simp: Let_def)
    next
      case Pending
      with 1(2) Some m f e1 show ?thesis by (auto simp: Let_def)
    qed
  qed
qed

lemma LoadIncludes_elements:
  "LoadIncludes h html w = Some (w', r) \<Longrightarrow> elements w' = elements w"
  using LoadIncludes_loop_elements [of h 0 html "[]" w "(w', r)"]
  by (simp add: LoadIncludes_def)

text \<open>
  Claim C3 does not hold as stated.  The page holds a script marker and an include whose text
  holds another one.  With \<^verbatim>\<open>_root\<close> absent the operation fails after the include's script
  \<^verbatim>\<open>nav.js\<close> has been loaded but before the page's own \<^verbatim>\<open>index.js\<close> is: script loading has
  not completed when the error is raised.  With \<^verbatim>\<open>_root\<close> present the scripts of the page
  are loaded as well (the markers of the expanded text, resolved against the page's path).
\<close>

theorem LoadPage_fails_before_page_scripts:
  "(\<exists>w'. LoadPage scripted_page ''home'' rootless_world = Some (w', Resolved ())
      \<and> scripts w' = [''chrome-extension://ext/includes/a/nav.js'']
      \<and> console w' = [(LError, ''[webciel-plugin:load:LoadPage]'',
            [''Error loading page: home'', ''Element with ID '' @ quoted ''_root'' @ '' not found''])])
   \<and> (\<exists>w'. LoadPage scripted_page ''home'' empty_world = Some (w', Resolved ())
      \<and> scripts w' = [''chrome-extension://ext/includes/a/nav.js'',
                       ''chrome-extension://ext/pages/home/index.js'',
                       ''chrome-extension://ext/pages/home/nav.js''])"
  by (simp add: load_eval LoadIncludes_loop.simps)

text \<open>
  Claim C3 as amended.  When \<^verbatim>\<open>_root\<close> is absent and the fetch of the page, its translation
  and the resolution of its inclusions (which loads the scripts of the includes) have completed,
  \<^verbatim>\<open>LoadPage\<close> fails at the root lookup, before the scripts of the page itself are loaded:
  the state is the one left by the resolution of the inclusions, with the error logged, and
  the promise resolves.
\<close>

theorem LoadPage_missing_root:
  assumes "elements w ''_root'' = None"
    and "fetchWithCache h (''pages/'' @ name @ ''/index.html'') w = (w1, Resolved fetchedContent)"
    and "applyTranslations h fetchedContent w1 = (w2, htmlContent)"
    and "LoadIncludes h htmlContent w2 = Some (w3, Resolved (replacedHtml, incs))"
  shows "LoadPage h name w
     = Some (say LError ''load'' ''LoadPage''
               [''Error loading page: '' @ name,
                ''Element with ID '' @ quoted ''_root'' @ '' not found''] w3,
             Resolved ())"
proof -
  have "elements w1 = elements w"
    using fetchWithCache_frame(1) [of h "''pages/'' @ name @ ''/index.html''" w] assms(2) by simp
  moreover have "elements w2 = elements w1"
    using applyTranslations_frame [of h fetchedContent w1] assms(3) by simp
  moreover have "elements w3 = elements w2"
    using LoadIncludes_elements [OF assms(4)] .
  ultimately have "elements w3 ''_root'' = None"
    using assms(1) by simp
  then have "LoadPage_splice h name replacedHtml incs w3
      = (w3, Rejected (JsError (''Element with ID '' @ quoted ''_root'' @ '' not found'')))"
    by (simp add: LoadPage_splice_def)
  with assms(2-4) show ?thesis
    by (simp add: LoadPage_def LoadPage_try_def catch_and_log_def)
qed

theorem LoadPage_missing_root_witness:
  "elements rootless_world ''_root'' = None
   \<and> (\<exists>w3. LoadIncludes scripted_page (marker ''script'' ''index'' @ marker ''include'' ''a'')
               (fst (fetchWithCache scripted_page ''pages/home/index.html'' rootless_world))
             = Some (w3, Resolved (marker ''script'' ''index'' @ ''<nav>''
                          @ marker ''script'' ''nav'' @ ''</nav>'', [''includes/a'']))
        \<and> scripts w3 = [''chrome-extension://ext/includes/a/nav.js'']
        \<and> LoadPage scripted_page ''home'' rootless_world
             = Some (say LError ''load'' ''LoadPage''
                  [''Error loading page: home'',
                   ''Element with ID '' @ quoted ''_root'' @ '' not found''] w3, Resolved ()))"
proof -
  define w1 where "w1 = fst (fetchWithCache scripted_page ''pages/home/index.html'' rootless_world)"
  define page where "page = marker ''script'' ''index'' @ marker ''include'' ''a''"
  define w3 where "w3 = fst (the (LoadIncludes scripted_page page w1))"
  have h0: "elements rootless_world ''_root'' = None"
    by (simp add: rootless_world_def empty_world_def)
  have h1: "fetchWithCache scripted_page (''pages/'' @ ''home'' @ ''/index.html'') rootless_world
      = (w1, Resolved page)"
    by (simp add: w1_def page_def load_eval)
  have h2: "applyTranslations scripted_page page w1 = (w1, page)"
    by (simp add: w1_def page_def load_eval)
  have h3: "LoadIncludes scripted_page page w1
      = Some (w3, Resolved (marker ''script'' ''index'' @ ''<nav>''
                          @ marker ''script'' ''nav'' @ ''</nav>'', [''includes/a'']))"
    by (simp add: w3_def w1_def page_def load_eval LoadIncludes_loop.simps)
  have s3: "scripts w3 = [''chrome-extension://ext/includes/a/nav.js'']"
    by (simp add: w3_def w1_def page_def load_eval LoadIncludes_loop.simps)
  from LoadPage_missing_root [OF h0 h1 h2 h3] h0 h3 s3 show ?thesis
    unfolding w1_def page_def by auto
qed

subsection \<open>Failures of a load\<close>

text \<open>
  Claim C5 does not hold as stated.  On a host where the \<^verbatim>\<open>load\<close> event of a script never
  fires, \<^verbatim>\<open>LoadPage\<close> and \<^verbatim>\<open>LoadTemplate\<close> neither resolve nor log anything: the failure
  of a script to load is not caught, the promise stays pending.
\<close>

theorem LoadPage_script_failure_not_caught:
  "(\<exists>w'. LoadPage scripts_never_load ''home'' empty_world = Some (w', Pending)
      \<and> console w' = [])
   \<and> (\<exists>w'. LoadTemplate scripts_never_load ''card'' card_options empty_world = (w', Pending)
      \<and> console w' = [])"
  by (simp add: load_eval LoadIncludes_loop.simps)

text \<open>
  Claim C5 as amended.  \<^verbatim>\<open>LoadPage\<close> and \<^verbatim>\<open>LoadTemplate\<close> never reject.  Whenever their
  \<^verbatim>\<open>try\<close> block throws (a failed fetch of a fragment, the missing root element, a callback that
  throws), the error is logged with the operation's name and message and the promise resolves
  like that of a successful load.  A \<^verbatim>\<open>try\<close> block that stays pending, as it does when a
  script never loads, leaves the operation pending, with nothing logged.
\<close>

theorem LoadPage_LoadTemplate_never_reject:
  "LoadPage h name w \<noteq> Some (w', Rejected e)
   \<and> LoadTemplate h templatePath options w \<noteq> (w', Rejected e)
   \<and> (LoadPage_try h name w = Some (w1, Rejected e1) \<longrightarrow>
        LoadPage h name w
          = Some (say LError ''load'' ''LoadPage''
                    [''Error loading page: '' @ name, message e1] w1, Resolved ()))
   \<and> (LoadTemplate_try h templatePath options w = (w2, Rejected e2) \<longrightarrow>
        LoadTemplate h templatePath options w
          = (say LError ''load'' ''LoadTemplate''
               [''Failed to load template: '' @ templatePath, message e2] w2, Resolved ()))
   \<and> (LoadPage_try hp namep wp = Some (w3, Pending) \<longrightarrow>
        LoadPage hp namep wp = Some (w3, Pending))
   \<and> (LoadTemplate_try ht patht optionst wt = (w4, Pending) \<longrightarrow>
        LoadTemplate ht patht optionst wt = (w4, Pending))"
proof -
  have never: "catch_and_log caller msg r \<noteq> (w', Rejected e)" for caller msg and r :: "'a world \<times> unit promise"
    by (cases r; cases "snd r") (auto simp: catch_and_log_def)
  have page: "LoadPage h name w \<noteq> Some (w', Rejected e)"
    by (cases "LoadPage_try h name w") (simp_all add: LoadPage_def never)
  have template: "LoadTemplate h templatePath options w \<noteq> (w', Rejected e)"
    by (simp add: LoadTemplate_def never)
  show ?thesis
    using page template by (simp add: LoadPage_def LoadTemplate_def catch_and_log_def)
qed

theorem LoadPage_LoadTemplate_never_reject_witness:
  "LoadPage_try (plain_host Map.empty) ''home'' empty_world
     = Some (empty_world\<lparr>fetched := [''chrome-extension://ext/pages/home/index.html'']\<rparr>,
             Rejected (JsError ''Failed to fetch''))
   \<and> LoadPage (plain_host Map.empty) ''home'' empty_world
     = Some (say LError ''load'' ''LoadPage'' [''Error loading page: home'', ''Failed to fetch'']
               (empty_world\<lparr>fetched := [''chrome-extension://ext/pages/home/index.html'']\<rparr>),
             Resolved ())
   \<and> LoadTemplate_try (plain_host Map.empty) ''card'' card_options empty_world
     = (empty_world\<lparr>fetched := [''chrome-extension://ext/templates/card/index.html'']\<rparr>,
        Rejected (JsError ''Failed to fetch''))
   \<and> LoadTemplate (plain_host Map.empty) ''card'' card_options empty_world
     = (say LError ''load'' ''LoadTemplate'' [''Failed to load template: card'', ''Failed to fetch'']
          (empty_world\<lparr>fetched := [''chrome-extension://ext/templates/card/index.html'']\<rparr>),
        Resolved ())
   \<and> (\<exists>w3. LoadPage_try scripts_never_load ''home'' empty_world = Some (w3, Pending)
        \<and> LoadPage scripts_never_load ''home'' empty_world = Some (w3, Pending))
   \<and> (\<exists>w4. LoadTemplate_try scripts_never_load ''card'' card_options empty_world = (w4, Pending)
        \<and> LoadTemplate scripts_never_load ''card'' card_options empty_world = (w4, Pending))"
proof -
  define wa where "wa = empty_world\<lparr>fetched := [''chrome-extension://ext/pages/home/index.html'']\<rparr>"
  define wb where "wb = empty_world\<lparr>fetched := [''chrome-extension://ext/templates/card/index.html'']\<rparr>"
  define wc where "wc = fst (the (LoadPage_try scripts_never_load ''home'' empty_world))"
  define wd where "wd = fst (LoadTemplate_try scripts_never_load ''card'' card_options empty_world)"
  have a: "LoadPage_try (plain_host Map.empty) ''home'' empty_world
      = Some (wa, Rejected (JsError ''Failed to fetch''))"
    by (simp add: wa_def load_eval)
  have b: "LoadTemplate_try (plain_host Map.empty) ''card'' card_options empty_world
      = (wb, Rejected (JsError ''Failed to fetch''))"
    by (simp add: wb_def load_eval)
  have c: "LoadPage_try scripts_never_load ''home'' empty_world = Some (wc, Pending)"
    by (simp add: wc_def load_eval LoadIncludes_loop.simps)
  have d: "LoadTemplate_try scripts_never_load ''card'' card_options empty_world = (wd, Pending)"
    by (simp add: wd_def load_eval)
  from LoadPage_LoadTemplate_never_reject [of "plain_host Map.empty" "''home''" empty_world _ _
      "''card''" card_options wa "JsError ''Failed to fetch''" wb "JsError ''Failed to fetch''"
      scripts_never_load "''home''" empty_world wc scripts_never_load "''card''" card_options
      empty_world wd] a b c d
  show ?thesis unfolding wa_def wb_def by auto
qed

section \<open>Request helper: cache and errors\<close>

lemma api_say_frame [simp]:
  "storage (api_say lv api c args w) = storage w"
  "now (api_say lv api c args w) = now w"
  "requests (api_say lv api c args w) = requests w"
  by (simp_all add: api_say_def)

lemma getCacheData_frame [simp]:
  "storage (fst (getCacheData api k u w)) = storage w"
  "now (fst (getCacheData api k u w)) = now w"
  "requests (fst (getCacheData api k u w)) = requests w"
  by (simp_all add: getCacheData_def split: option.splits cached.splits)

lemma getCacheData_result:
  "snd (getCacheData api k u w) =
     (if \<not> u then None
      else case storage w k of
             Some (Item payload ts) \<Rightarrow> if now w - ts < cacheDuration then Some payload else None
           | _ \<Rightarrow> None)"
  by (simp add: getCacheData_def split: option.splits cached.splits)

lemma request_try_requests:
  "requests (fst (request_try api net endpoint opts w))
     = requests w @ [(method_of opts, baseUrl api @ endpoint)]"
  by (simp add: request_try_def Let_def rethrow_def
      split: http_result.splits option.splits sum.splits)

lemma request_try_non_2xx:
  assumes "respond net (length (requests w)) (method_of opts) (baseUrl api @ endpoint)
                 = HttpResponse st body"
    and "\<not> ok st"
  shows "snd (request_try api net endpoint opts w) = Rejected (JsError (''HTTP Error: '' @ dec st))"
    and "storage (fst (request_try api net endpoint opts w)) = storage w"
  using assms by (simp_all add: request_try_def Let_def rethrow_def)

lemma request_try_no_cache:
  "\<not> useCache_of opts \<Longrightarrow> storage (fst (request_try api net endpoint opts w)) = storage w"
  by (simp add: request_try_def Let_def rethrow_def
      split: http_result.splits option.splits sum.splits)

lemma request_try_success:
  assumes "respond net (length (requests w)) (method_of opts) (baseUrl api @ endpoint)
                 = HttpResponse st (Some js)"
    and "ok st" and "data_of js = Inr payload" and "useCache_of opts"
  shows "storage (fst (request_try api net endpoint opts w))
           = (storage w)(cacheKey_for (baseUrl api @ endpoint)
                \<mapsto> Item payload (now w + int (elapsed net (length (requests w)))))"
    and "\<exists>r. snd (request_try api net endpoint opts w) = Resolved r \<and> data r = payload"
  using assms by (simp_all add: request_try_def Let_def)

lemma request_unfold:
  "request api net endpoint opts w =
     (let r = getCacheData api (cacheKey_for (baseUrl api @ endpoint)) (useCache_of opts)
                (api_say LLog api ''request'' [method_of opts, baseUrl api @ endpoint] w)
      in if usable (snd r)
         then (fst r, Resolved \<lparr>resp_method = method_of opts, resp_url = baseUrl api @ endpoint,
                 resp_options = request_init api opts, data = the (snd r), status = 200,
                 reload = (endpoint, opts\<lparr>opt_useCache := Some False\<rparr>)\<rparr>)
         else request_try api net endpoint opts (fst r))"
  by (simp add: request_def Let_def split: prod.splits)

text \<open>
  What holds of the cache read: with caching on, a stored entry younger than one hour whose
  payload is truthy is returned with status 200, and neither the network nor the store is
  touched.
\<close>

lemma request_cache_hit:
  assumes "useCache_of opts"
    and "storage w (cacheKey_for (baseUrl api @ endpoint)) = Some (Item payload ts)"
    and "now w - ts < cacheDuration" and "truthy payload"
  shows "requests (fst (request api net endpoint opts w)) = requests w"
    and "storage (fst (request api net endpoint opts w)) = storage w"
    and "\<exists>r. snd (request api net endpoint opts w) = Resolved r \<and> data r = payload \<and> status r = 200"
  using assms by (simp_all add: request_unfold Let_def getCacheData_result)

text \<open>
  With caching on, an absent entry or one aged an hour or more leads to a network call, and a
  successful response is stored under the URL's key with the time of its arrival.
\<close>

lemma request_cache_miss:
  assumes "useCache_of opts"
    and "storage w (cacheKey_for (baseUrl api @ endpoint)) = None
         \<or> (\<exists>p ts. storage w (cacheKey_for (baseUrl api @ endpoint)) = Some (Item p ts)
                \<and> cacheDuration \<le> now w - ts)"
  shows "requests (fst (request api net endpoint opts w))
           = requests w @ [(method_of opts, baseUrl api @ endpoint)]"
    and "respond net (length (requests w)) (method_of opts) (baseUrl api @ endpoint)
           = HttpResponse st (Some js) \<Longrightarrow> ok st \<Longrightarrow> data_of js = Inr payload \<Longrightarrow>
         storage (fst (request api net endpoint opts w))
           = (storage w)(cacheKey_for (baseUrl api @ endpoint)
                \<mapsto> Item payload (now w + int (elapsed net (length (requests w)))))
         \<and> (\<exists>r. snd (request api net endpoint opts w) = Resolved r \<and> data r = payload)"
proof -
  define r where "r = getCacheData api (cacheKey_for (baseUrl api @ endpoint)) (useCache_of opts)
                (api_say LLog api ''request'' [method_of opts, baseUrl api @ endpoint] w)"
  have miss: "snd r = None"
    using assms by (auto simp: r_def getCacheData_result)
  then have eq: "request api net endpoint opts w = request_try api net endpoint opts (fst r)"
    by (simp add: request_unfold Let_def r_def [symmetric])
  have fr: "storage (fst r) = storage w" "requests (fst r) = requests w" "now (fst r) = now w"
    by (simp_all add: r_def)
  show "requests (fst (request api net endpoint opts w))
           = requests w @ [(method_of opts, baseUrl api @ endpoint)]"
    by (simp add: eq request_try_requests fr)
  show "storage (fst (request api net endpoint opts w))
           = (storage w)(cacheKey_for (baseUrl api @ endpoint)
                \<mapsto> Item payload (now w + int (elapsed net (length (requests w)))))
         \<and> (\<exists>r. snd (request api net endpoint opts w) = Resolved r \<and> data r = payload)"
    if "respond net (length (requests w)) (method_of opts) (baseUrl api @ endpoint)
           = HttpResponse st (Some js)" "ok st" "data_of js = Inr payload"
    using request_try_success [of net "fst r" opts api endpoint st js payload] that assms(1) fr
    by (simp add: eq)
qed

text \<open>
  What holds of \<^verbatim>\<open>reload\<close>: the response of \<^verbatim>\<open>request\<close> re-issues its own call with
  \<^verbatim>\<open>useCache\<close> false, and such a call always goes to the network and leaves the store as it is.
\<close>

lemma request_reload_args:
  "snd (request api net endpoint opts w) = Resolved r \<Longrightarrow>
   reload r = (endpoint, opts\<lparr>opt_useCache := Some False\<rparr>)"
  by (auto simp: request_unfold request_try_def Let_def rethrow_def
      split: if_splits http_result.splits option.splits sum.splits)

lemma request_without_cache:
  assumes "opt_useCache opts = Some False"
  shows "storage (fst (request api net endpoint opts w)) = storage w"
    and "requests (fst (request api net endpoint opts w))
           = requests w @ [(method_of opts, baseUrl api @ endpoint)]"
  using assms
  by (simp_all add: request_unfold Let_def getCacheData_result useCache_of_def
      request_try_no_cache request_try_requests)

lemma call_reload_frame:
  assumes "snd (request api net endpoint opts w) = Resolved r"
  shows "storage (fst (call_reload api net' r w')) = storage w'"
    and "requests (fst (call_reload api net' r w'))
           = requests w' @ [(method_of opts, baseUrl api @ endpoint)]"
  using request_without_cache [of "opts\<lparr>opt_useCache := Some False\<rparr>" api net' endpoint w']
  by (simp_all add: call_reload_def request_reload_args [OF assms] method_of_def)

lemmas api_eval = request_def request_try_def getCacheData_def api_say_def emit_def format_def
  Let_def cacheKey_for_def method_of_def body_of_def headers_of_def useCache_of_def ok_def
  rethrow_def cacheDuration_def request_init_def Api_get_def Api_fetch_def call_reload_def
  example_api_def new_Api_def fresh_api_world_def counting_server_def no_options_def

lemma after_first_get_eq:
  "after_first_get =
     \<lparr>storage = [''[webciel-plugin:API:https://example.com/api/user/me]'' \<mapsto> Item (JNum 0) 5],
      now = 5, requests = [(''GET'', ''https://example.com/api/user/me'')],
      api_console = [(LLog, ''[webciel-plugin:API:request]'',
                       [''GET'', ''https://example.com/api/user/me''])]\<rparr>"
  by (simp add: after_first_get_def api_eval)

text \<open>
  Claim C4, evaluated where the code departs from it.  A first \<^verbatim>\<open>get\<close> stores the payload
  \<^verbatim>\<open>0\<close> of its response; the entry exists and is five milliseconds old at most, yet a second
  \<^verbatim>\<open>get\<close> with caching on goes to the network again and returns the new payload \<^verbatim>\<open>1\<close>:
  \<^verbatim>\<open>if (cachedData)\<close> takes the stored falsy payload for a miss.
\<close>

theorem request_refetches_falsy_payload:
  "storage after_first_get (cacheKey_for ''https://example.com/api/user/me'')
     = Some (Item (JNum 0) 5)
   \<and> now after_first_get - 5 < cacheDuration
   \<and> requests (fst (Api_get example_api (counting_server 200) ''/user/me'' no_options
                      after_first_get))
       = [(''GET'', ''https://example.com/api/user/me''),
          (''GET'', ''https://example.com/api/user/me'')]
   \<and> (\<exists>r. snd (Api_get example_api (counting_server 200) ''/user/me'' no_options after_first_get)
              = Resolved r \<and> data r = JNum 1)"
  by (simp add: after_first_get_eq api_eval)

text \<open>The decimal rendering of a status determines the status.\<close>

lemma digit_value_nth:
  assumes "k < 10"
  shows "digit_value (''0123456789'' ! k) = k"
proof -
  from assms have "k = 0 \<or> k = 1 \<or> k = 2 \<or> k = 3 \<or> k = 4 \<or> k = 5 \<or> k = 6 \<or> k = 7
      \<or> k = 8 \<or> k = 9"
    by presburger
  then show ?thesis
    by (elim disjE) (simp_all add: digit_value_def)
qed

lemma undec_dec: "undec (dec n) = n"
proof (induction n rule: dec.induct)
  case (1 n)
  show ?case
  proof (cases "n < 10")
    case True
    then show ?thesis by (subst dec.simps) (simp add: undec_def digit_value_nth)
  next
    case False
    with 1 have "undec (dec (n div 10)) = n div 10" by simp
    with False show ?thesis
      by (subst dec.simps) (simp add: undec_def digit_value_nth)
  qed
qed

lemma dec_inject: "dec a = dec b \<Longrightarrow> a = b"
  by (metis undec_dec)

text \<open>
  Claim C6.  When a call of \<^verbatim>\<open>request\<close> reaches the network (it adds a network call to the
  trace) and the response has a status outside 200 to 299, the call rejects with an error whose
  message is \<^verbatim>\<open>HTTP Error: \<close> followed by the status in decimal (which determines the
  status, by \<open>dec_inject\<close>), and the store of cache entries is left as it was.
\<close>

theorem request_non_2xx_rejects:
  assumes reached: "requests (fst (request api net endpoint opts w)) \<noteq> requests w"
    and resp: "respond net (length (requests w)) (method_of opts) (baseUrl api @ endpoint)
                 = HttpResponse st body"
    and bad: "st < 200 \<or> 299 < st"
  shows "snd (request api net endpoint opts w) = Rejected (JsError (''HTTP Error: '' @ dec st))
         \<and> storage (fst (request api net endpoint opts w)) = storage w"
proof -
  define r where "r = getCacheData api (cacheKey_for (baseUrl api @ endpoint)) (useCache_of opts)
                (api_say LLog api ''request'' [method_of opts, baseUrl api @ endpoint] w)"
  have fr: "storage (fst r) = storage w" "requests (fst r) = requests w"
    by (simp_all add: r_def)
  have miss: "\<not> usable (snd r)"
    using reached fr by (auto simp: request_unfold Let_def r_def [symmetric])
  then have eq: "request api net endpoint opts w = request_try api net endpoint opts (fst r)"
    by (simp add: request_unfold Let_def r_def [symmetric])
  from bad have "\<not> ok st" by (auto simp: ok_def)
  with resp fr show ?thesis
    unfolding eq using request_try_non_2xx [of net "fst r" opts api endpoint st body] by simp
qed

theorem request_non_2xx_rejects_witness:
  "requests (fst (request example_api (counting_server 404) ''/user/me'' no_options
                    fresh_api_world)) \<noteq> requests fresh_api_world
   \<and> respond (counting_server 404) (length (requests fresh_api_world)) (method_of no_options)
        (baseUrl example_api @ ''/user/me'')
       = HttpResponse 404 (Some (JObj [(''data'', JNum 0)]))
   \<and> snd (request example_api (counting_server 404) ''/user/me'' no_options fresh_api_world)
       = Rejected (JsError ''HTTP Error: 404'')
   \<and> storage (fst (request example_api (counting_server 404) ''/user/me'' no_options
                     fresh_api_world)) = Map.empty"
proof -
  have reached: "requests (fst (request example_api (counting_server 404) ''/user/me'' no_options
                    fresh_api_world)) \<noteq> requests fresh_api_world"
    by (simp add: api_eval)
  have resp: "respond (counting_server 404) (length (requests fresh_api_world))
        (method_of no_options) (baseUrl example_api @ ''/user/me'')
       = HttpResponse 404 (Some (JObj [(''data'', JNum 0)]))"
    by (simp add: api_eval)
  have d: "dec 404 = ''404''" by (simp add: dec.simps)
  have s: "storage fresh_api_world = Map.empty" by (simp add: fresh_api_world_def)
  show ?thesis
    using request_non_2xx_rejects [OF reached resp] reached resp d s by simp
qed

text \<open>
  Claim C10, evaluated where the code departs from it.  After a \<^verbatim>\<open>get\<close> that cached the
  payload \<^verbatim>\<open>0\<close>, \<^verbatim>\<open>reload()\<close> obtains the payload \<^verbatim>\<open>1\<close> and leaves the entry as it was; a
  following \<^verbatim>\<open>get\<close> with caching on, ten milliseconds after the entry was written, does not
  return the cached \<^verbatim>\<open>0\<close>: it goes to the network, returns \<^verbatim>\<open>2\<close> and overwrites the entry.
\<close>

theorem reload_then_get_misses_falsy_entry:
  "(\<exists>first reloaded w2 again w3.
      Api_get example_api (counting_server 200) ''/user/me'' no_options fresh_api_world
        = (after_first_get, Resolved first)
      \<and> data first = JNum 0
      \<and> call_reload example_api (counting_server 200) first after_first_get
        = (w2, Resolved reloaded)
      \<and> data reloaded = JNum 1
      \<and> storage w2 = storage after_first_get
      \<and> storage w2 (cacheKey_for ''https://example.com/api/user/me'') = Some (Item (JNum 0) 5)
      \<and> now w2 = 10
      \<and> Api_get example_api (counting_server 200) ''/user/me'' no_options w2
        = (w3, Resolved again)
      \<and> data again = JNum 2
      \<and> length (requests w3) = 3
      \<and> storage w3 (cacheKey_for ''https://example.com/api/user/me'') = Some (Item (JNum 2) 15))"
  by (simp add: after_first_get_eq api_eval)

end
